theory Spec2Isabelle
  imports Complex_Main
begin

section \<open>Python values used by convert.py\<close>

text \<open>
  The plugin is a set of eight Sublime Text commands.  Every command body runs inside
  \<^verbatim>\<open>try: ... except: num_skip += 1\<close>, so each Python exception that a step can
  raise is a value of the type \<open>error\<close>, and a step that can raise returns
  \<open>error + 'a\<close> with \<open>Inl\<close> for the exception.
\<close>

datatype error = AttributeError | IndexError | KeyError | TypeError | ValueError
  | ReError | OverflowError | ZeroDivisionError

definition bindE :: "error + 'a \<Rightarrow> ('a \<Rightarrow> error + 'b) \<Rightarrow> error + 'b" where
  "bindE x f = (case x of Inl e \<Rightarrow> Inl e | Inr v \<Rightarrow> f v)"

text \<open>Two characters that cannot be written inside a string literal.\<close>

definition bslash :: char where
  "bslash = CHR 0x5C"

definition squote :: char where
  "squote = CHR 0x27"

subsection \<open>Character classes\<close>

definition char_in :: "char \<Rightarrow> char \<Rightarrow> char \<Rightarrow> bool" where
  "char_in lo hi c = ((of_char lo :: nat) \<le> of_char c \<and> (of_char c :: nat) \<le> of_char hi)"

definition is_digit :: "char \<Rightarrow> bool" where
  "is_digit c = char_in (CHR ''0'') (CHR ''9'') c"

definition is_lower :: "char \<Rightarrow> bool" where
  "is_lower c = char_in (CHR ''a'') (CHR ''z'') c"

definition is_upper :: "char \<Rightarrow> bool" where
  "is_upper c = char_in (CHR ''A'') (CHR ''Z'') c"

definition is_alnum :: "char \<Rightarrow> bool" where
  "is_alnum c = (is_digit c \<or> is_lower c \<or> is_upper c)"

text \<open>\<^verbatim>\<open>\w\<close> of the \<^verbatim>\<open>re\<close> module, on ASCII text.\<close>

definition is_word :: "char \<Rightarrow> bool" where
  "is_word c = (is_alnum c \<or> c = CHR ''_'')"

text \<open>
  The characters for which \<^verbatim>\<open>str.isspace\<close> holds, on ASCII text: tab, line feed,
  vertical tab, form feed, carriage return, the four separators 0x1C to 0x1F and the
  space.  \<^verbatim>\<open>str.strip()\<close>, \<^verbatim>\<open>int()\<close>, \<^verbatim>\<open>float()\<close> and \<^verbatim>\<open>\s\<close> use this set.
\<close>

definition is_space :: "char \<Rightarrow> bool" where
  "is_space c = (char_in (CHR 0x09) (CHR 0x0D) c \<or> char_in (CHR 0x1C) (CHR 0x1F) c
     \<or> c = CHR '' '')"

definition py_strip :: "string \<Rightarrow> string" where
  "py_strip s = rev (dropWhile is_space (rev (dropWhile is_space s)))"

subsection \<open>Integers: \<^verbatim>\<open>int(text, base)\<close> and \<^verbatim>\<open>str(n)\<close>\<close>

definition digit_val :: "char \<Rightarrow> nat option" where
  "digit_val c =
     (if is_digit c then Some (of_char c - of_char (CHR ''0''))
      else if is_lower c then Some (of_char c - of_char (CHR ''a'') + 10)
      else if is_upper c then Some (of_char c - of_char (CHR ''A'') + 10)
      else None)"

text \<open>The digit loop of \<^verbatim>\<open>int\<close>: the accumulator is the value read so far.\<close>

fun digits_val :: "nat \<Rightarrow> nat \<Rightarrow> string \<Rightarrow> nat option" where
  "digits_val base acc [] = Some acc"
| "digits_val base acc (c # cs) =
     (case digit_val c of
        None \<Rightarrow> None
      | Some d \<Rightarrow> if d < base then digits_val base (acc * base + d) cs else None)"

text \<open>
  \<^verbatim>\<open>int(s, base)\<close> for base 2, 10 or 16 (Python 3.3, the interpreter of the plugin
  host): surrounding whitespace is dropped, then an optional sign, then for base 2 an
  optional \<^verbatim>\<open>0b\<close> and for base 16 an optional \<^verbatim>\<open>0x\<close> (either case), then at least
  one digit of the base and nothing else.  Anything else raises \<^verbatim>\<open>ValueError\<close>.
\<close>

definition strip_sign :: "string \<Rightarrow> bool \<times> string" where
  "strip_sign s =
     (case s of
        [] \<Rightarrow> (False, [])
      | c # r \<Rightarrow> if c = CHR ''-'' then (True, r) else if c = CHR ''+'' then (False, r)
                else (False, s))"

definition strip_base_prefix :: "nat \<Rightarrow> string \<Rightarrow> string" where
  "strip_base_prefix base s =
     (case s of
        z # x # r \<Rightarrow>
          if z = CHR ''0'' \<and>
             ((base = 16 \<and> (x = CHR ''x'' \<or> x = CHR ''X'')) \<or>
              (base = 2 \<and> (x = CHR ''b'' \<or> x = CHR ''B'')))
          then r else s
      | _ \<Rightarrow> s)"

definition py_int :: "nat \<Rightarrow> string \<Rightarrow> error + int" where
  "py_int base s =
     (let (neg, u) = strip_sign (py_strip s);
          ds = strip_base_prefix base u
      in if ds = [] then Inl ValueError
         else case digits_val base 0 ds of
                None \<Rightarrow> Inl ValueError
              | Some n \<Rightarrow> Inr (if neg then - int n else int n))"

definition digit_char :: "nat \<Rightarrow> char" where
  "digit_char d = (if d < 10 then char_of (of_char (CHR ''0'') + d)
                   else char_of (of_char (CHR ''a'') + (d - 10)))"

text \<open>The digits of a natural number in a base from 2 to 16, most significant first.\<close>

function nat_digits :: "nat \<Rightarrow> nat \<Rightarrow> string" where
  "nat_digits base n =
     (if base < 2 \<or> n < base then [digit_char n]
      else nat_digits base (n div base) @ [digit_char (n mod base)])"
  by pat_completeness auto
termination
  by (relation "measure (\<lambda>(base, n). n)") auto

declare nat_digits.simps [simp del]

definition int_digits :: "nat \<Rightarrow> string \<Rightarrow> int \<Rightarrow> string" where
  "int_digits base prefix n =
     (if n < 0 then CHR ''-'' # prefix @ nat_digits base (nat (- n))
      else prefix @ nat_digits base (nat n))"

definition py_str_int :: "int \<Rightarrow> string" where
  "py_str_int n = int_digits 10 [] n"

text \<open>\<^verbatim>\<open>hex(n)\<close> of Python: sign, \<^verbatim>\<open>0x\<close>, lowercase digits.\<close>

definition py_hex :: "int \<Rightarrow> string" where
  "py_hex n = int_digits 16 ''0x'' n"

section \<open>The fragment of the \<^verbatim>\<open>re\<close> module that the plugin uses\<close>

text \<open>
  The three default source patterns and the patterns of the configuration example use
  literals, the dot, the anchors, bracketed classes with ranges, the escapes
  \<^verbatim>\<open>\b \B \d \D \s \S \w \W\<close>, escaped punctuation, capturing and
  \<^verbatim>\<open>(?:...)\<close> groups, alternation and the greedy quantifiers \<^verbatim>\<open>? * +\<close>.  This
  fragment is modelled: a parser from the pattern text to a syntax tree, and a
  backtracking matcher that returns the successes in the order in which the
  \<^verbatim>\<open>re\<close> engine tries them, so that the first one is the match that \<^verbatim>\<open>re.match\<close>
  reports.  Pattern text outside the fragment (counted repetition, lazy quantifiers,
  look-around, back-references, named groups, inline flags, letter and digit escapes
  other than the ones above) is rejected by the parser of this model.
\<close>

datatype citem = CChar char | CRange char char | CDigit bool | CSpace bool | CWord bool

datatype regex =
    Lit char
  | AnyChar
  | CharClass bool "citem list"
  | WordBoundary
  | NonWordBoundary
  | Bol
  | Eol
  | Empty
  | Seq regex regex
  | Alt regex regex
  | Opt regex
  | Star regex
  | Plus regex
  | Group nat regex

text \<open>For the class escapes the flag says whether the class is negated (\<^verbatim>\<open>\D\<close>).\<close>

fun citem_matches :: "citem \<Rightarrow> char \<Rightarrow> bool" where
  "citem_matches (CChar x) c = (c = x)"
| "citem_matches (CRange lo hi) c = char_in lo hi c"
| "citem_matches (CDigit neg) c = (is_digit c \<noteq> neg)"
| "citem_matches (CSpace neg) c = (is_space c \<noteq> neg)"
| "citem_matches (CWord neg) c = (is_word c \<noteq> neg)"

definition class_matches :: "bool \<Rightarrow> citem list \<Rightarrow> char \<Rightarrow> bool" where
  "class_matches neg items c = ((\<exists>it \<in> set items. citem_matches it c) \<noteq> neg)"

text \<open>
  \<^verbatim>\<open>\b\<close> at position \<open>i\<close> of \<open>s\<close>: exactly one of the characters before and after
  the position is a word character (the outside of the text counts as a non-word
  character).
\<close>

definition at_boundary :: "string \<Rightarrow> nat \<Rightarrow> bool" where
  "at_boundary s i =
     ((0 < i \<and> i \<le> length s \<and> is_word (s ! (i - 1))) \<noteq> (i < length s \<and> is_word (s ! i)))"

text \<open>
  A matcher state is the current position and the spans of the groups closed so far.
\<close>

type_synonym mstate = "nat \<times> (nat \<rightharpoonup> nat \<times> nat)"

text \<open>
  Greedy repetition: as many rounds of the body as possible first, each round
  consuming at least one character, the empty repetition last.  The first argument
  bounds the number of rounds by the number of characters left.
\<close>

fun star_iter :: "(mstate \<Rightarrow> mstate list) \<Rightarrow> nat \<Rightarrow> mstate \<Rightarrow> mstate list" where
  "star_iter f 0 st = [st]"
| "star_iter f (Suc n) st =
     concat (map (star_iter f n) (filter (\<lambda>st'. fst st < fst st') (f st))) @ [st]"

primrec rmatch :: "regex \<Rightarrow> string \<Rightarrow> mstate \<Rightarrow> mstate list" where
  "rmatch (Lit c) s = (\<lambda>st. if fst st < length s \<and> s ! fst st = c
                             then [(Suc (fst st), snd st)] else [])"
| "rmatch AnyChar s = (\<lambda>st. if fst st < length s \<and> s ! fst st \<noteq> CHR 0x0A
                             then [(Suc (fst st), snd st)] else [])"
| "rmatch (CharClass neg items) s =
     (\<lambda>st. if fst st < length s \<and> class_matches neg items (s ! fst st)
           then [(Suc (fst st), snd st)] else [])"
| "rmatch WordBoundary s = (\<lambda>st. if at_boundary s (fst st) then [st] else [])"
| "rmatch NonWordBoundary s = (\<lambda>st. if at_boundary s (fst st) then [] else [st])"
| "rmatch Bol s = (\<lambda>st. if fst st = 0 then [st] else [])"
| "rmatch Eol s =
     (\<lambda>st. if fst st = length s \<or> (Suc (fst st) = length s \<and> s ! fst st = CHR 0x0A)
           then [st] else [])"
| "rmatch Empty s = (\<lambda>st. [st])"
| "rmatch (Seq r1 r2) s = (\<lambda>st. concat (map (rmatch r2 s) (rmatch r1 s st)))"
| "rmatch (Alt r1 r2) s = (\<lambda>st. rmatch r1 s st @ rmatch r2 s st)"
| "rmatch (Opt r) s = (\<lambda>st. rmatch r s st @ [st])"
| "rmatch (Star r) s = (\<lambda>st. star_iter (rmatch r s) (length s - fst st) st)"
| "rmatch (Plus r) s =
     (\<lambda>st. concat (map (\<lambda>st'. star_iter (rmatch r s) (length s - fst st') st')
                        (rmatch r s st)))"
| "rmatch (Group k r) s =
     (\<lambda>st. map (\<lambda>st'. (fst st', (snd st')(k \<mapsto> (fst st, fst st')))) (rmatch r s st))"

subsection \<open>\<^verbatim>\<open>re.compile\<close>\<close>

definition class_escape :: "char \<Rightarrow> citem option" where
  "class_escape c =
     (if c = CHR ''d'' then Some (CDigit False) else if c = CHR ''D'' then Some (CDigit True)
      else if c = CHR ''s'' then Some (CSpace False) else if c = CHR ''S'' then Some (CSpace True)
      else if c = CHR ''w'' then Some (CWord False) else if c = CHR ''W'' then Some (CWord True)
      else None)"

definition char_escape :: "char \<Rightarrow> char option" where
  "char_escape c =
     (if c = CHR ''n'' then Some (CHR 0x0A) else if c = CHR ''t'' then Some (CHR 0x09)
      else if c = CHR ''r'' then Some (CHR 0x0D) else if c = CHR ''f'' then Some (CHR 0x0C)
      else if c = CHR ''v'' then Some (CHR 0x0B)
      else if is_alnum c then None else Some c)"

text \<open>One member of a bracketed class; inside a class \<^verbatim>\<open>\b\<close> is the backspace.\<close>

definition parse_class_atom :: "string \<Rightarrow> error + (citem \<times> string)" where
  "parse_class_atom s =
     (case s of
        [] \<Rightarrow> Inl ReError
      | c # r \<Rightarrow>
          if c = bslash then
            (case r of
               [] \<Rightarrow> Inl ReError
             | x # r' \<Rightarrow>
                 (case class_escape x of
                    Some it \<Rightarrow> Inr (it, r')
                  | None \<Rightarrow>
                      if x = CHR ''b'' then Inr (CChar (CHR 0x08), r')
                      else (case char_escape x of
                              Some ch \<Rightarrow> Inr (CChar ch, r')
                            | None \<Rightarrow> Inl ReError)))
          else Inr (CChar c, r))"

text \<open>
  The members of a class up to the closing bracket.  A bracket that is the first
  member is a literal; a hyphen between two characters makes a range, which must not
  be empty; a hyphen before the closing bracket is a literal.
\<close>

fun parse_class :: "nat \<Rightarrow> string \<Rightarrow> citem list \<Rightarrow> error + (citem list \<times> string)" where
  "parse_class 0 s acc = Inl ReError"
| "parse_class (Suc n) s acc =
     (case s of
        [] \<Rightarrow> Inl ReError
      | c # r \<Rightarrow>
          if c = CHR '']'' \<and> acc \<noteq> [] then Inr (rev acc, r)
          else
            (case parse_class_atom s of
               Inl e \<Rightarrow> Inl e
             | Inr (lo, r1) \<Rightarrow>
                 (case r1 of
                    d # h # r2 \<Rightarrow>
                      if d = CHR ''-'' \<and> h \<noteq> CHR '']'' then
                        (case parse_class_atom (h # r2) of
                           Inl e \<Rightarrow> Inl e
                         | Inr (hi, r3) \<Rightarrow>
                             (case (lo, hi) of
                                (CChar l, CChar u) \<Rightarrow>
                                  if (of_char l :: nat) \<le> of_char u
                                  then parse_class n r3 (CRange l u # acc)
                                  else Inl ReError
                              | _ \<Rightarrow> Inl ReError))
                      else parse_class n r1 (lo # acc)
                  | _ \<Rightarrow> parse_class n r1 (lo # acc))))"

definition is_quantifier :: "char \<Rightarrow> bool" where
  "is_quantifier c = (c = CHR ''?'' \<or> c = CHR ''*'' \<or> c = CHR ''+'')"

definition is_anchor :: "regex \<Rightarrow> bool" where
  "is_anchor r = (r = WordBoundary \<or> r = NonWordBoundary \<or> r = Bol \<or> r = Eol)"

text \<open>
  An optional quantifier after an item.  \<^verbatim>\<open>re\<close> refuses to repeat an anchor
  (\<^verbatim>\<open>nothing to repeat\<close>) and a quantifier (\<^verbatim>\<open>multiple repeat\<close>); a question mark after
  a quantifier would make it lazy, which is outside the fragment.
\<close>

definition parse_quant :: "regex \<Rightarrow> string \<Rightarrow> error + (regex \<times> string)" where
  "parse_quant item s =
     (case s of
        [] \<Rightarrow> Inr (item, [])
      | q # r \<Rightarrow>
          if \<not> is_quantifier q then Inr (item, s)
          else if is_anchor item then Inl ReError
          else if r \<noteq> [] \<and> (is_quantifier (hd r) \<or> hd r = CHR ''{'') then Inl ReError
          else Inr (if q = CHR ''?'' then Opt item else if q = CHR ''*'' then Star item
                    else Plus item, r))"

text \<open>
  The parser proper.  The first argument bounds the depth of the recursion (it is
  set from the length of the pattern), the second is the number of capturing groups
  opened so far: groups are numbered by their opening parenthesis.
\<close>

fun parse_alt :: "nat \<Rightarrow> nat \<Rightarrow> string \<Rightarrow> error + (regex \<times> nat \<times> string)"
  and parse_seq :: "nat \<Rightarrow> nat \<Rightarrow> string \<Rightarrow> error + (regex \<times> nat \<times> string)"
  and parse_atom :: "nat \<Rightarrow> nat \<Rightarrow> string \<Rightarrow> error + (regex \<times> nat \<times> string)"
where
  "parse_alt 0 g s = Inl ReError"
| "parse_alt (Suc n) g s =
     (case parse_seq n g s of
        Inl e \<Rightarrow> Inl e
      | Inr (l, g1, r1) \<Rightarrow>
          (case r1 of
             [] \<Rightarrow> Inr (l, g1, r1)
           | c # r2 \<Rightarrow>
               if c = CHR ''|'' then
                 (case parse_alt n g1 r2 of
                    Inl e \<Rightarrow> Inl e
                  | Inr (r, g2, r3) \<Rightarrow> Inr (Alt l r, g2, r3))
               else Inr (l, g1, r1)))"
| "parse_seq 0 g s = Inl ReError"
| "parse_seq (Suc n) g s =
     (case s of
        [] \<Rightarrow> Inr (Empty, g, s)
      | c # r \<Rightarrow>
          if c = CHR ''|'' \<or> c = CHR '')'' then Inr (Empty, g, s)
          else
            (case parse_atom n g s of
               Inl e \<Rightarrow> Inl e
             | Inr (a, g1, r1) \<Rightarrow>
                 (case parse_quant a r1 of
                    Inl e \<Rightarrow> Inl e
                  | Inr (item, r2) \<Rightarrow>
                      (case parse_seq n g1 r2 of
                         Inl e \<Rightarrow> Inl e
                       | Inr (rest, g2, r3) \<Rightarrow> Inr (Seq item rest, g2, r3)))))"
| "parse_atom 0 g s = Inl ReError"
| "parse_atom (Suc n) g s =
     (case s of
        [] \<Rightarrow> Inl ReError
      | c # r \<Rightarrow>
          if c = CHR ''('' then
            (if r \<noteq> [] \<and> hd r = CHR ''?'' then
               (if take 2 r = ''?:'' then
                  (case parse_alt n g (drop 2 r) of
                     Inl e \<Rightarrow> Inl e
                   | Inr (body, g1, r1) \<Rightarrow>
                       if r1 \<noteq> [] \<and> hd r1 = CHR '')'' then Inr (body, g1, tl r1)
                       else Inl ReError)
                else Inl ReError)
             else
               (case parse_alt n (Suc g) r of
                  Inl e \<Rightarrow> Inl e
                | Inr (body, g1, r1) \<Rightarrow>
                    if r1 \<noteq> [] \<and> hd r1 = CHR '')'' then Inr (Group (Suc g) body, g1, tl r1)
                    else Inl ReError))
          else if c = CHR ''['' then
            (let neg = (r \<noteq> [] \<and> hd r = CHR ''^'')
             in case parse_class (Suc (length r)) (if neg then tl r else r) [] of
                  Inl e \<Rightarrow> Inl e
                | Inr (items, r1) \<Rightarrow> Inr (CharClass neg items, g, r1))
          else if c = bslash then
            (case r of
               [] \<Rightarrow> Inl ReError
             | x # r1 \<Rightarrow>
                 if x = CHR ''b'' then Inr (WordBoundary, g, r1)
                 else if x = CHR ''B'' then Inr (NonWordBoundary, g, r1)
                 else (case class_escape x of
                         Some it \<Rightarrow> Inr (CharClass False [it], g, r1)
                       | None \<Rightarrow>
                           (case char_escape x of
                              Some ch \<Rightarrow> Inr (Lit ch, g, r1)
                            | None \<Rightarrow> Inl ReError)))
          else if c = CHR ''.'' then Inr (AnyChar, g, r)
          else if c = CHR ''^'' then Inr (Bol, g, r)
          else if c = CHR ''$'' then Inr (Eol, g, r)
          else if is_quantifier c \<or> c = CHR ''{'' then Inl ReError
          else Inr (Lit c, g, r))"

text \<open>
  A compiled pattern keeps its source text (\<^verbatim>\<open>r.pattern\<close>), the syntax tree and the
  number of capturing groups.
\<close>

record pattern =
  pat_source :: string
  pat_regex :: regex
  pat_groups :: nat

text \<open>
  \<^verbatim>\<open>re.compile(p)\<close> with no flags.  Text left over after the top-level alternation is
  an unbalanced closing parenthesis.
\<close>

definition re_compile :: "string \<Rightarrow> error + pattern" where
  "re_compile p =
     (case parse_alt (4 * length p + 4) 0 p of
        Inl e \<Rightarrow> Inl e
      | Inr (r, g, rest) \<Rightarrow>
          if rest = [] then Inr \<lparr>pat_source = p, pat_regex = r, pat_groups = g\<rparr>
          else Inl ReError)"

subsection \<open>\<^verbatim>\<open>r.match(text)\<close> and \<^verbatim>\<open>match.group(k)\<close>\<close>

record match =
  m_string :: string
  m_spans :: "nat \<rightharpoonup> nat \<times> nat"
  m_groups :: nat

text \<open>\<^verbatim>\<open>r.match(text)\<close>: the match starts at position 0; \<open>None\<close> is Python's \<^verbatim>\<open>None\<close>.\<close>

definition re_match :: "pattern \<Rightarrow> string \<Rightarrow> match option" where
  "re_match r s =
     (case rmatch (pat_regex r) s (0, Map.empty) of
        [] \<Rightarrow> None
      | st # _ \<Rightarrow> Some \<lparr>m_string = s, m_spans = snd st, m_groups = pat_groups r\<rparr>)"

text \<open>
  \<^verbatim>\<open>match.group(k)\<close> where \<^verbatim>\<open>match\<close> may be \<^verbatim>\<open>None\<close> (\<^verbatim>\<open>AttributeError\<close>), the pattern
  may have fewer than \<open>k\<close> groups (\<^verbatim>\<open>IndexError\<close>), and the group may not have taken
  part in the match (the result is \<^verbatim>\<open>None\<close>).
\<close>

definition match_group :: "match option \<Rightarrow> nat \<Rightarrow> error + string option" where
  "match_group mo k =
     (case mo of
        None \<Rightarrow> Inl AttributeError
      | Some m \<Rightarrow>
          if m_groups m < k then Inl IndexError
          else (case m_spans m k of
                  None \<Rightarrow> Inr None
                | Some (i, j) \<Rightarrow> Inr (Some (take (j - i) (drop i (m_string m))))))"

text \<open>\<^verbatim>\<open>int(g, base)\<close> on the result of \<^verbatim>\<open>match.group\<close>: \<^verbatim>\<open>int(None, base)\<close> raises.\<close>

definition py_int_of :: "nat \<Rightarrow> string option \<Rightarrow> error + int" where
  "py_int_of base g = (case g of None \<Rightarrow> Inl TypeError | Some s \<Rightarrow> py_int base s)"

section \<open>Configuration\<close>

text \<open>The defaults of convert.py, lines 36 to 47.\<close>

definition CONVERT_DST_BIN_DFLT :: string where
  "CONVERT_DST_BIN_DFLT = ''{0:b}''"

definition CONVERT_DST_HEX_DFLT :: string where
  "CONVERT_DST_HEX_DFLT = ''{0:#x}''"

definition CONVERT_DST_EXP_DFLT :: string where
  "CONVERT_DST_EXP_DFLT = ''e''"

definition CONVERT_SRC_BIN_DFLT :: string where
  "CONVERT_SRC_BIN_DFLT = bslash # ''b(?:0b)?([01]+)'' @ bslash # ''b''"

definition CONVERT_SRC_HEX_DFLT :: string where
  "CONVERT_SRC_HEX_DFLT = bslash # ''b(?:0x)?([0-9a-f]+)h?'' @ bslash # ''b''"

definition CONVERT_SRC_EXP_DFLT :: string where
  "CONVERT_SRC_EXP_DFLT =
     bslash # ''b('' @ bslash # ''d+'' @ bslash # ''.'' @ bslash # ''d+)e([-+]?'' @ bslash # ''d+)''
       @ bslash # ''b''"

section \<open>\<^verbatim>\<open>str.format\<close> with one integer argument\<close>

text \<open>
  The destination templates are format strings applied to one integer:
  \<^verbatim>\<open>dst_format.format(n)\<close>.  Modelled are literal text, the doubled braces, and the
  replacement fields \<^verbatim>\<open>{}\<close> and \<^verbatim>\<open>{0}\<close> with an optional specification made of an
  optional \<^verbatim>\<open>#\<close> and an optional presentation type among \<^verbatim>\<open>b o d x X\<close>.  A field
  that names another argument raises \<^verbatim>\<open>IndexError\<close> or \<^verbatim>\<open>KeyError\<close> as in Python;
  conversions, attribute access, nested fields, fill, alignment, sign, width and the
  other presentation types are outside the modelled fragment and are rejected.
\<close>

datatype fpiece = FText char | FField string

fun fmt_scan :: "string \<Rightarrow> string option \<Rightarrow> string \<Rightarrow> error + fpiece list" where
  "fmt_scan [] None fuel = Inr []"
| "fmt_scan [] (Some fld) fuel = Inl ValueError"
| "fmt_scan (c # r) infield [] = Inl ValueError"
| "fmt_scan (c # r) (Some fld) (u # fuel) =
     (if c = CHR ''}'' then bindE (fmt_scan r None fuel) (\<lambda>ps. Inr (FField (rev fld) # ps))
      else if c = CHR ''{'' then Inl ValueError
      else fmt_scan r (Some (c # fld)) fuel)"
| "fmt_scan (c # r) None (u # fuel) =
     (if c = CHR ''{'' then
        (if r \<noteq> [] \<and> hd r = CHR ''{''
         then bindE (fmt_scan (tl r) None fuel) (\<lambda>ps. Inr (FText (CHR ''{'') # ps))
         else fmt_scan r (Some []) fuel)
      else if c = CHR ''}'' then
        (if r \<noteq> [] \<and> hd r = CHR ''}''
         then bindE (fmt_scan (tl r) None fuel) (\<lambda>ps. Inr (FText (CHR ''}'') # ps))
         else Inl ValueError)
      else bindE (fmt_scan r None fuel) (\<lambda>ps. Inr (FText c # ps)))"

text \<open>Uppercase hexadecimal digits, for the presentation type \<^verbatim>\<open>X\<close>.\<close>

definition to_upper :: "char \<Rightarrow> char" where
  "to_upper c = (if is_lower c then char_of (of_char c - (32::nat)) else c)"

text \<open>\<^verbatim>\<open>format(n, spec)\<close> for an integer.\<close>

definition format_int :: "string \<Rightarrow> int \<Rightarrow> error + string" where
  "format_int spec n =
     (let alt = (spec \<noteq> [] \<and> hd spec = CHR ''#'');
          ty = (if alt then tl spec else spec)
      in if ty = [] \<or> ty = ''d'' then Inr (int_digits 10 [] n)
         else if ty = ''b'' then Inr (int_digits 2 (if alt then ''0b'' else []) n)
         else if ty = ''o'' then Inr (int_digits 8 (if alt then ''0o'' else []) n)
         else if ty = ''x'' then Inr (int_digits 16 (if alt then ''0x'' else []) n)
         else if ty = ''X'' then Inr (map to_upper (int_digits 16 (if alt then ''0x'' else []) n))
         else Inl ValueError)"

text \<open>
  Automatic and manual field numbering: \<^verbatim>\<open>{}\<close> takes the next argument, a number
  takes that argument, and the two must not be mixed.  There is one argument.
\<close>

datatype numbering = Undecided | Automatic nat | Manual

definition field_index :: "numbering \<Rightarrow> string \<Rightarrow> error + (nat \<times> numbering)" where
  "field_index st name =
     (if name = [] then
        (case st of
           Manual \<Rightarrow> Inl ValueError
         | Undecided \<Rightarrow> Inr (0, Automatic 1)
         | Automatic k \<Rightarrow> Inr (k, Automatic (Suc k)))
      else if list_all is_digit name then
        (case st of
           Automatic k \<Rightarrow> Inl ValueError
         | _ \<Rightarrow> (case digits_val 10 0 name of
                   None \<Rightarrow> Inl ValueError
                 | Some i \<Rightarrow> Inr (i, Manual)))
      else if list_ex (\<lambda>c. c = CHR ''.'' \<or> c = CHR ''['' \<or> c = CHR ''!'') name
      then Inl ValueError
      else Inl KeyError)"

fun fmt_render :: "numbering \<Rightarrow> fpiece list \<Rightarrow> int \<Rightarrow> error + string" where
  "fmt_render st [] n = Inr []"
| "fmt_render st (FText c # ps) n = bindE (fmt_render st ps n) (\<lambda>out. Inr (c # out))"
| "fmt_render st (FField fld # ps) n =
     (let name = takeWhile (\<lambda>c. c \<noteq> CHR '':'') fld;
          spec = drop (Suc (length name)) fld
      in bindE (field_index st name) (\<lambda>(i, st').
           if 0 < i then Inl IndexError
           else bindE (format_int spec n) (\<lambda>txt.
                  bindE (fmt_render st' ps n) (\<lambda>out. Inr (txt @ out)))))"

definition py_format :: "string \<Rightarrow> int \<Rightarrow> error + string" where
  "py_format fmt n = bindE (fmt_scan fmt None fmt) (\<lambda>ps. fmt_render Undecided ps n)"

section \<open>Python floats\<close>

text \<open>
  A Python float is an IEEE 754 binary64 number.  \<open>Finite q\<close> stands for the number with
  the rational value \<open>q\<close> (\<open>Finite 0\<close> is the positive zero); the negative zero, the two
  infinities and the not-a-number are values of their own.  Arithmetic computes the
  exact rational result and rounds it to the nearest binary64 number, ties to the
  even significand, as the hardware does.
\<close>

datatype pyfloat = Finite rat | NegZero | PosInf | NegInf | NaN

definition round_half_even :: "rat \<Rightarrow> int" where
  "round_half_even x =
     (let f = \<lfloor>x\<rfloor>; d = x - of_int f
      in if d < 1 / 2 then f else if 1 / 2 < d then f + 1 else if even f then f else f + 1)"

text \<open>The number of digits of a positive integer in a base.\<close>

function digit_count :: "int \<Rightarrow> int \<Rightarrow> int" where
  "digit_count b x = (if 0 < x \<and> 1 < b then digit_count b (x div b) + 1 else 0)"
  by pat_completeness auto
termination
proof (relation "measure (\<lambda>(b, x). nat x)")
  show "wf (measure (\<lambda>(b, x). nat x))" by simp
next
  fix b x :: int
  assume "0 < x \<and> 1 < b"
  then have "x div b < x" by (simp add: int_div_less_self)
  moreover have "0 \<le> x div b" using \<open>0 < x \<and> 1 < b\<close> by (simp add: pos_imp_zdiv_nonneg_iff)
  ultimately show "((b, x div b), (b, x)) \<in> measure (\<lambda>(b, x). nat x)" by simp
qed

declare digit_count.simps [simp del]

text \<open>
  For a positive rational \<open>q\<close> and a base \<open>b\<close>, the integer \<open>e\<close> with
  \<open>b ^ e \<le> q < b ^ (e + 1)\<close>: the difference of the digit counts of the numerator and
  of the denominator, or one less.
\<close>

definition floor_log :: "int \<Rightarrow> rat \<Rightarrow> int" where
  "floor_log b q =
     (case quotient_of q of
        (n, d) \<Rightarrow>
          let k = digit_count b n - digit_count b d
          in if of_int b powi k \<le> q then k else k - 1)"

text \<open>
  Rounding a positive rational to the binary64 grid: 53 significant bits for a normal
  number, the fixed spacing \<open>2 ^ - 1074\<close> below the smallest normal number.  The result
  may be zero (underflow) or reach \<open>2 ^ 1024\<close> (overflow).
\<close>

definition round_pos :: "rat \<Rightarrow> rat" where
  "round_pos q =
     (let p = max (floor_log 2 q) (- 1022) - 52
      in of_int (round_half_even (q / (2 powi p))) * (2 powi p))"

definition float_of_rat :: "rat \<Rightarrow> pyfloat" where
  "float_of_rat q =
     (if q = 0 then Finite 0
      else if 0 < q then
        (let r = round_pos q in if 2 ^ 1024 \<le> r then PosInf else Finite r)
      else
        (let r = round_pos (- q)
         in if 2 ^ 1024 \<le> r then NegInf else if r = 0 then NegZero else Finite (- r)))"

text \<open>The values that a float can have: rounding leaves them as they are.\<close>

definition is_float :: "pyfloat \<Rightarrow> bool" where
  "is_float x = (case x of Finite q \<Rightarrow> float_of_rat q = Finite q | _ \<Rightarrow> True)"

definition is_nan :: "pyfloat \<Rightarrow> bool" where
  "is_nan x = (x = NaN)"

definition is_inf :: "pyfloat \<Rightarrow> bool" where
  "is_inf x = (x = PosInf \<or> x = NegInf)"

definition is_zero :: "pyfloat \<Rightarrow> bool" where
  "is_zero x = (x = Finite 0 \<or> x = NegZero)"

text \<open>The sign bit.\<close>

definition sign_bit :: "pyfloat \<Rightarrow> bool" where
  "sign_bit x = (case x of Finite q \<Rightarrow> q < 0 | NegZero \<Rightarrow> True | NegInf \<Rightarrow> True | _ \<Rightarrow> False)"

definition float_val :: "pyfloat \<Rightarrow> rat" where
  "float_val x = (case x of Finite q \<Rightarrow> q | _ \<Rightarrow> 0)"

definition signed_zero :: "bool \<Rightarrow> pyfloat" where
  "signed_zero neg = (if neg then NegZero else Finite 0)"

definition signed_inf :: "bool \<Rightarrow> pyfloat" where
  "signed_inf neg = (if neg then NegInf else PosInf)"

text \<open>
  \<^verbatim>\<open>x < y\<close> and \<^verbatim>\<open>x > y\<close>: false when an operand is not a number; the two zeros are equal.
  The integer operands 1 and 10 of the source are exact as floats.
\<close>

definition float_lt :: "pyfloat \<Rightarrow> pyfloat \<Rightarrow> bool" where
  "float_lt x y =
     (if is_nan x \<or> is_nan y then False
      else if x = PosInf \<or> y = NegInf then False
      else if x = NegInf \<or> y = PosInf then True
      else float_val x < float_val y)"

definition float_gt :: "pyfloat \<Rightarrow> pyfloat \<Rightarrow> bool" where
  "float_gt x y = float_lt y x"

text \<open>\<^verbatim>\<open>x * y\<close>.\<close>

definition float_mul :: "pyfloat \<Rightarrow> pyfloat \<Rightarrow> pyfloat" where
  "float_mul x y =
     (let neg = (sign_bit x \<noteq> sign_bit y)
      in if is_nan x \<or> is_nan y then NaN
         else if is_inf x \<or> is_inf y then
           (if is_zero x \<or> is_zero y then NaN else signed_inf neg)
         else if is_zero x \<or> is_zero y then signed_zero neg
         else float_of_rat (float_val x * float_val y))"

text \<open>\<^verbatim>\<open>x / y\<close>: Python raises \<^verbatim>\<open>ZeroDivisionError\<close> for a zero divisor.\<close>

definition float_truediv :: "pyfloat \<Rightarrow> pyfloat \<Rightarrow> error + pyfloat" where
  "float_truediv x y =
     (let neg = (sign_bit x \<noteq> sign_bit y)
      in if is_zero y then Inl ZeroDivisionError
         else if is_nan x \<or> is_nan y then Inr NaN
         else if is_inf x then (if is_inf y then Inr NaN else Inr (signed_inf neg))
         else if is_inf y \<or> is_zero x then Inr (signed_zero neg)
         else Inr (float_of_rat (float_val x / float_val y)))"

subsection \<open>\<^verbatim>\<open>float(text)\<close>\<close>

definition to_lower :: "char \<Rightarrow> char" where
  "to_lower c = (if is_upper c then char_of (of_char c + (32::nat)) else c)"

text \<open>
  \<^verbatim>\<open>float(s)\<close> (Python 3.3): surrounding whitespace is dropped; then an optional sign;
  then \<^verbatim>\<open>inf\<close>, \<^verbatim>\<open>infinity\<close> or \<^verbatim>\<open>nan\<close> in any case, or a decimal numeral: digits with
  an optional point, at least one digit before or after the point, and an optional
  exponent \<^verbatim>\<open>e\<close> or \<^verbatim>\<open>E\<close> with an optional sign and at least one digit.  The value is
  the decimal value rounded to the nearest float.
\<close>

definition py_float :: "string \<Rightarrow> error + pyfloat" where
  "py_float s =
     (let (neg, r) = strip_sign (py_strip s);
          low = map to_lower r
      in if low = ''inf'' \<or> low = ''infinity'' then Inr (signed_inf neg)
         else if low = ''nan'' then Inr NaN
         else
           (let ip = takeWhile is_digit r;
                r1 = dropWhile is_digit r;
                has_point = (r1 \<noteq> [] \<and> hd r1 = CHR ''.'');
                fp = (if has_point then takeWhile is_digit (tl r1) else []);
                r2 = (if has_point then dropWhile is_digit (tl r1) else r1)
            in if ip = [] \<and> fp = [] then Inl ValueError
               else
                 (case (if r2 = [] then Some 0
                        else if hd r2 = CHR ''e'' \<or> hd r2 = CHR ''E'' then
                          (let (eneg, ds) = strip_sign (tl r2)
                           in if ds = [] then None
                              else (case digits_val 10 0 ds of
                                      None \<Rightarrow> None
                                    | Some e \<Rightarrow> Some (if eneg then - int e else int e)))
                        else None) of
                    None \<Rightarrow> Inl ValueError
                  | Some e \<Rightarrow>
                      (case digits_val 10 0 (ip @ fp) of
                         None \<Rightarrow> Inl ValueError
                       | Some m \<Rightarrow>
                           if m = 0 then Inr (signed_zero neg)
                           else Inr (float_of_rat
                                  ((if neg then - 1 else 1) * of_nat m
                                     * (10 powi (e - int (length fp)))))))))"

text \<open>\<^verbatim>\<open>float(g)\<close> on the result of \<^verbatim>\<open>match.group\<close>.\<close>

definition py_float_of :: "string option \<Rightarrow> error + pyfloat" where
  "py_float_of g = (case g of None \<Rightarrow> Inl TypeError | Some s \<Rightarrow> py_float s)"

subsection \<open>\<^verbatim>\<open>round(x, ndigits)\<close>\<close>

text \<open>
  \<^verbatim>\<open>round(x, n)\<close> for \<open>0 \<le> n \<le> 323\<close>: the decimal expansion of \<open>x\<close> is rounded to \<open>n\<close>
  digits after the point, ties to even, and the decimal numeral is read back as a
  float.  Zeros, infinities and the not-a-number round to themselves.
\<close>

definition py_round :: "pyfloat \<Rightarrow> nat \<Rightarrow> error + pyfloat" where
  "py_round x n =
     (case x of
        Finite q \<Rightarrow>
          (let m = round_half_even (q * 10 ^ n)
           in if m = 0 then Inr (signed_zero (q < 0))
              else (let r = float_of_rat (of_int m / 10 ^ n)
                    in if is_inf r then Inl OverflowError else Inr r))
      | _ \<Rightarrow> Inr x)"

subsection \<open>\<^verbatim>\<open>str(x)\<close>\<close>

text \<open>
  \<^verbatim>\<open>str\<close> of a float is its \<^verbatim>\<open>repr\<close>: the shortest decimal digit string that reads
  back as the same float, and among the strings of that length the one nearest to the
  value.  \<open>shortest_digits q k n fuel\<close> tries the precisions \<open>n, n + 1, \<dots>\<close>; \<open>k\<close> is the
  decimal exponent of \<open>q\<close>.  The result is the digits as an integer and the power of ten
  of its last digit.  Seventeen digits always suffice.
\<close>

definition reads_back :: "rat \<Rightarrow> int \<Rightarrow> int \<Rightarrow> bool" where
  "reads_back q c sc = (float_of_rat (of_int c * (10 powi sc)) = Finite q)"

fun shortest_digits :: "rat \<Rightarrow> int \<Rightarrow> nat \<Rightarrow> nat \<Rightarrow> int \<times> int" where
  "shortest_digits q k n 0 = (round_half_even (q / (10 powi (k + 1 - int n))), k + 1 - int n)"
| "shortest_digits q k n (Suc fuel) =
     (let sc = k + 1 - int n;
          x = q / (10 powi sc);
          lo = \<lfloor>x\<rfloor>;
          hi = lo + 1;
          near = round_half_even x
      in if reads_back q near sc then (near, sc)
         else if reads_back q lo sc then (lo, sc)
         else if reads_back q hi sc then (hi, sc)
         else shortest_digits q k (Suc n) fuel)"

text \<open>The digits without trailing zeros, and the position of the decimal point.\<close>

definition repr_digits :: "rat \<Rightarrow> string \<times> int" where
  "repr_digits q =
     (let (c, sc) = shortest_digits q (floor_log 10 q) 1 16;
          ds = nat_digits 10 (nat c)
      in (rev (dropWhile (\<lambda>d. d = CHR ''0'') (rev ds)), int (length ds) + sc))"

text \<open>
  The layout of \<^verbatim>\<open>repr\<close>: exponent notation when the decimal point is more than 16
  places to the right or more than 3 zeros to the left of the first digit, with a
  signed exponent of at least two digits; otherwise positional notation, with \<^verbatim>\<open>.0\<close>
  after an integral value.
\<close>

definition repr_layout :: "string \<Rightarrow> int \<Rightarrow> string" where
  "repr_layout ds decpt =
     (if decpt \<le> - 4 \<or> 16 < decpt then
        (let e = decpt - 1;
             es = nat_digits 10 (nat \<bar>e\<bar>)
         in take 1 ds @ (if 1 < length ds then CHR ''.'' # drop 1 ds else [])
              @ ''e'' @ (if e < 0 then ''-'' else ''+'')
              @ (if length es < 2 then CHR ''0'' # es else es))
      else if decpt \<le> 0 then ''0.'' @ replicate (nat (- decpt)) (CHR ''0'') @ ds
      else if int (length ds) \<le> decpt
      then ds @ replicate (nat decpt - length ds) (CHR ''0'') @ ''.0''
      else take (nat decpt) ds @ CHR ''.'' # drop (nat decpt) ds)"

definition float_str :: "pyfloat \<Rightarrow> string" where
  "float_str x =
     (case x of
        NaN \<Rightarrow> ''nan''
      | PosInf \<Rightarrow> ''inf''
      | NegInf \<Rightarrow> ''-inf''
      | NegZero \<Rightarrow> ''-0.0''
      | Finite q \<Rightarrow>
          if q = 0 then ''0.0''
          else (let (ds, decpt) = repr_digits \<bar>q\<bar>
                in (if q < 0 then ''-'' else []) @ repr_layout ds decpt))"

text \<open>\<^verbatim>\<open>s.rstrip(c)\<close> for a single character.\<close>

definition py_rstrip :: "char \<Rightarrow> string \<Rightarrow> string" where
  "py_rstrip c s = rev (dropWhile (\<lambda>x. x = c) (rev s))"

section \<open>The editor\<close>

text \<open>
  The plugin talks to the editor through \<^verbatim>\<open>view.settings()\<close>, \<^verbatim>\<open>view.sel()\<close>,
  \<^verbatim>\<open>view.word\<close>, \<^verbatim>\<open>view.substr\<close>, \<^verbatim>\<open>view.replace\<close> and \<^verbatim>\<open>sublime.status_message\<close>.
  The state of the editor that these calls read and write is the record \<open>view\<close>: the
  text of the buffer, the selection (a list of regions), the settings and the status
  messages shown so far.
\<close>

datatype region = Region (reg_a: int) (reg_b: int)

definition reg_empty :: "region \<Rightarrow> bool" where
  "reg_empty r = (reg_a r = reg_b r)"

definition reg_begin :: "region \<Rightarrow> int" where
  "reg_begin r = min (reg_a r) (reg_b r)"

definition reg_end :: "region \<Rightarrow> int" where
  "reg_end r = max (reg_a r) (reg_b r)"

text \<open>A setting is a JSON value; only strings can be a pattern or a template.\<close>

datatype setting = SString string | SOther

record view =
  buffer :: string
  selection :: "region list"
  settings :: "string \<rightharpoonup> setting"
  status :: "string list"

text \<open>
  Three services of the platform are not fixed by the plugin and are parameters of
  the model: the word segmentation behind \<^verbatim>\<open>view.word\<close> (from the buffer and a region
  to the region of the enclosing word), where a region of the selection lies after
  \<^verbatim>\<open>view.replace\<close> has replaced the text of a region by a text of \<open>n\<close> characters,
  and the function \<^verbatim>\<open>pow\<close> of the C library, to which Python hands the operator
  \<^verbatim>\<open>**\<close> on floats and whose rounding differs between platforms.
\<close>

record host =
  h_word :: "string \<Rightarrow> region \<Rightarrow> region"
  h_moved :: "region \<Rightarrow> nat \<Rightarrow> region \<Rightarrow> region"
  h_pow :: "pyfloat \<Rightarrow> pyfloat \<Rightarrow> pyfloat"

text \<open>\<^verbatim>\<open>view.settings().get(name, default)\<close>.\<close>

definition settings_get :: "view \<Rightarrow> string \<Rightarrow> string \<Rightarrow> setting" where
  "settings_get v name dflt = (case settings v name of None \<Rightarrow> SString dflt | Some x \<Rightarrow> x)"

text \<open>\<^verbatim>\<open>view.substr(region)\<close>: the text between the two ends, cut to the buffer.\<close>

definition view_substr :: "view \<Rightarrow> region \<Rightarrow> string" where
  "view_substr v r =
     take (nat (reg_end r) - nat (reg_begin r)) (drop (nat (reg_begin r)) (buffer v))"

text \<open>
  \<^verbatim>\<open>view.replace(edit, region, text)\<close>: the buffer changes between the two ends of the
  region, and the editor moves the regions of the selection.
\<close>

definition view_replace :: "host \<Rightarrow> view \<Rightarrow> region \<Rightarrow> string \<Rightarrow> view" where
  "view_replace h v r txt =
     v\<lparr>buffer := take (nat (reg_begin r)) (buffer v) @ txt @ drop (nat (reg_end r)) (buffer v),
       selection := map (h_moved h r (length txt)) (selection v)\<rparr>"

definition status_message :: "view \<Rightarrow> string \<Rightarrow> view" where
  "status_message v msg = v\<lparr>status := status v @ [msg]\<rparr>"

text \<open>
  \<^verbatim>\<open>for sel in view.sel(): try: ... except: num_skip += 1\<close>.  The selection object is
  read by index, one region at a time, from the current state of the view; a step
  that raises leaves the view as it was and adds one to the counter.  The first
  argument is the number of regions still to visit.
\<close>

primrec sel_loop ::
  "(view \<Rightarrow> region \<Rightarrow> error + view) \<Rightarrow> nat \<Rightarrow> nat \<Rightarrow> view \<Rightarrow> nat \<Rightarrow> view \<times> nat" where
  "sel_loop step 0 i v num_skip = (v, num_skip)"
| "sel_loop step (Suc k) i v num_skip =
     (if i < length (selection v) then
        (case step v (selection v ! i) of
           Inl e \<Rightarrow> sel_loop step k (Suc i) v (Suc num_skip)
         | Inr v' \<Rightarrow> sel_loop step k (Suc i) v' num_skip)
      else (v, num_skip))"

definition for_each_sel :: "(view \<Rightarrow> region \<Rightarrow> error + view) \<Rightarrow> view \<Rightarrow> view \<times> nat" where
  "for_each_sel step v = sel_loop step (length (selection v)) 0 v 0"

text \<open>The report after the loop: \<^verbatim>\<open>"Skipped %d invalid ... value(s)!" % num_skip\<close>.\<close>

definition report :: "string \<Rightarrow> view \<times> nat \<Rightarrow> view" where
  "report kind res =
     (case res of (v, num_skip) \<Rightarrow>
        if 0 < num_skip
        then status_message v
               (''Skipped '' @ py_str_int (int num_skip) @ '' invalid '' @ kind @ '' value(s)!'')
        else v)"

section \<open>convert.py\<close>

definition load_pattern :: "view \<Rightarrow> string \<Rightarrow> string \<Rightarrow> error + pattern" where
  "load_pattern v name dflt =
     (case (case settings_get v name dflt of
              SString p \<Rightarrow> re_compile p
            | SOther \<Rightarrow> Inl TypeError) of
        Inr r \<Rightarrow> Inr r
      | Inl e \<Rightarrow> re_compile dflt)"

text \<open>
  Lines 68 to 74, the same in the four commands with a source pattern: an empty
  selection becomes the word around it, widened by one character on each side when
  the pattern text starts with a single quote.  \<^verbatim>\<open>r.pattern[0]\<close> raises on the empty
  pattern.
\<close>

definition expand_to_word :: "host \<Rightarrow> pattern \<Rightarrow> view \<Rightarrow> region \<Rightarrow> error + region" where
  "expand_to_word h r v sel =
     (if reg_empty sel then
        (let w = h_word h (buffer v) sel
         in case pat_source r of
              [] \<Rightarrow> Inl IndexError
            | c # _ \<Rightarrow> Inr (if c = squote then Region (reg_a w - 1) (reg_b w + 1) else w))
      else Inr sel)"

text \<open>\<^verbatim>\<open>dst_format.format(n)\<close> where the template comes from the settings.\<close>

definition format_setting :: "setting \<Rightarrow> int \<Rightarrow> error + string" where
  "format_setting dst n = (case dst of SString f \<Rightarrow> py_format f n | SOther \<Rightarrow> Inl AttributeError)"

subsection \<open>BinToDecCommand\<close>

definition BinToDec_step :: "host \<Rightarrow> pattern \<Rightarrow> view \<Rightarrow> region \<Rightarrow> error + view" where
  "BinToDec_step h r v sel0 =
     bindE (expand_to_word h r v sel0) (\<lambda>sel.
     bindE (match_group (re_match r (view_substr v sel)) 1) (\<lambda>g.
     bindE (py_int_of 2 g) (\<lambda>n.
     Inr (view_replace h v sel (py_str_int n)))))"

definition BinToDec_run :: "host \<Rightarrow> view \<Rightarrow> error + view" where
  "BinToDec_run h v =
     bindE (load_pattern v ''convert_src_bin'' CONVERT_SRC_BIN_DFLT) (\<lambda>r.
     Inr (report ''binary'' (for_each_sel (BinToDec_step h r) v)))"

subsection \<open>BinToHexCommand\<close>

definition BinToHex_step :: "host \<Rightarrow> setting \<Rightarrow> pattern \<Rightarrow> view \<Rightarrow> region \<Rightarrow> error + view" where
  "BinToHex_step h dst_format r v sel0 =
     bindE (expand_to_word h r v sel0) (\<lambda>sel.
     bindE (match_group (re_match r (view_substr v sel)) 1) (\<lambda>g.
     bindE (py_int_of 2 g) (\<lambda>n.
     bindE (format_setting dst_format n) (\<lambda>txt.
     Inr (view_replace h v sel txt)))))"

definition BinToHex_run :: "host \<Rightarrow> view \<Rightarrow> error + view" where
  "BinToHex_run h v =
     (let dst_format = settings_get v ''convert_dst_hex'' CONVERT_DST_HEX_DFLT
      in bindE (load_pattern v ''convert_src_bin'' CONVERT_SRC_BIN_DFLT) (\<lambda>r.
         Inr (report ''binary'' (for_each_sel (BinToHex_step h dst_format r) v))))"

subsection \<open>DecToBinCommand and DecToHexCommand\<close>

definition DecTo_step :: "host \<Rightarrow> setting \<Rightarrow> view \<Rightarrow> region \<Rightarrow> error + view" where
  "DecTo_step h dst_format v sel0 =
     (let sel = (if reg_empty sel0 then h_word h (buffer v) sel0 else sel0)
      in bindE (py_int 10 (py_strip (view_substr v sel))) (\<lambda>dec.
         bindE (format_setting dst_format dec) (\<lambda>txt.
         Inr (view_replace h v sel txt))))"

definition DecToBin_run :: "host \<Rightarrow> view \<Rightarrow> error + view" where
  "DecToBin_run h v =
     (let dst_format = settings_get v ''convert_dst_bin'' CONVERT_DST_BIN_DFLT
      in Inr (report ''decimal'' (for_each_sel (DecTo_step h dst_format) v)))"

definition DecToHex_run :: "host \<Rightarrow> view \<Rightarrow> error + view" where
  "DecToHex_run h v =
     (let dst_format = settings_get v ''convert_dst_hex'' CONVERT_DST_HEX_DFLT
      in Inr (report ''decimal'' (for_each_sel (DecTo_step h dst_format) v)))"

subsection \<open>HexToBinCommand\<close>

definition HexToBin_step :: "host \<Rightarrow> setting \<Rightarrow> pattern \<Rightarrow> view \<Rightarrow> region \<Rightarrow> error + view" where
  "HexToBin_step h dst_format r v sel0 =
     bindE (expand_to_word h r v sel0) (\<lambda>sel.
     bindE (match_group (re_match r (view_substr v sel)) 1) (\<lambda>g.
     bindE (py_int_of 16 g) (\<lambda>n.
     bindE (format_setting dst_format n) (\<lambda>txt.
     Inr (view_replace h v sel txt)))))"

definition HexToBin_run :: "host \<Rightarrow> view \<Rightarrow> error + view" where
  "HexToBin_run h v =
     (let dst_format = settings_get v ''convert_dst_bin'' CONVERT_DST_BIN_DFLT
      in bindE (load_pattern v ''convert_src_hex'' CONVERT_SRC_HEX_DFLT) (\<lambda>r.
         Inr (report ''hexadecimal'' (for_each_sel (HexToBin_step h dst_format r) v))))"

subsection \<open>HexToDecCommand\<close>

definition HexToDec_step :: "host \<Rightarrow> pattern \<Rightarrow> view \<Rightarrow> region \<Rightarrow> error + view" where
  "HexToDec_step h r v sel0 =
     bindE (expand_to_word h r v sel0) (\<lambda>sel.
     bindE (match_group (re_match r (view_substr v sel)) 1) (\<lambda>g.
     bindE (py_int_of 16 g) (\<lambda>n.
     Inr (view_replace h v sel (py_str_int n)))))"

definition HexToDec_run :: "host \<Rightarrow> view \<Rightarrow> error + view" where
  "HexToDec_run h v =
     bindE (load_pattern v ''convert_src_hex'' CONVERT_SRC_HEX_DFLT) (\<lambda>r.
     Inr (report ''hexadecimal'' (for_each_sel (HexToDec_step h r) v)))"

subsection \<open>ExpToDecCommand\<close>

text \<open>
  \<^verbatim>\<open>view.substr(point)\<close>: the character at a position.  Outside the buffer the editor
  gives a NUL character, which is in neither of the character sets of the two
  commands; \<open>None\<close> stands for it.
\<close>

definition view_char :: "view \<Rightarrow> int \<Rightarrow> char option" where
  "view_char v p =
     (if 0 \<le> p \<and> p < int (length (buffer v)) then Some (buffer v ! nat p) else None)"

text \<open>
  Lines 260 to 263: \<^verbatim>\<open>while view.substr(sel.a - 1) in cs: sel.a -= 1\<close> and
  \<^verbatim>\<open>while view.substr(sel.b) in cs: sel.b += 1\<close>.
\<close>

function scan_left :: "view \<Rightarrow> string \<Rightarrow> int \<Rightarrow> int" where
  "scan_left v cs a =
     (case view_char v (a - 1) of
        Some c \<Rightarrow> if c \<in> set cs then scan_left v cs (a - 1) else a
      | None \<Rightarrow> a)"
  by pat_completeness auto
termination
  by (relation "measure (\<lambda>(v, cs, a). nat a)") (auto simp: view_char_def split: if_splits)

function scan_right :: "view \<Rightarrow> string \<Rightarrow> int \<Rightarrow> int" where
  "scan_right v cs b =
     (case view_char v b of
        Some c \<Rightarrow> if c \<in> set cs then scan_right v cs (b + 1) else b
      | None \<Rightarrow> b)"
  by pat_completeness auto
termination
  by (relation "measure (\<lambda>(v, cs, b). nat (int (length (buffer v)) - b))")
    (auto simp: view_char_def split: if_splits)

declare scan_left.simps [simp del] scan_right.simps [simp del]

definition expand_to_number :: "host \<Rightarrow> string \<Rightarrow> view \<Rightarrow> region \<Rightarrow> region" where
  "expand_to_number h cs v sel =
     (if reg_empty sel then
        (let w = h_word h (buffer v) sel
         in Region (scan_left v cs (reg_a w)) (scan_right v cs (reg_b w)))
      else sel)"

text \<open>
  \<^verbatim>\<open>10 ** y\<close> for a float \<open>y\<close>: Python answers the special operands itself and calls
  the C library for the others; a result that overflows raises \<^verbatim>\<open>OverflowError\<close>.
\<close>

definition ten_pow :: "host \<Rightarrow> pyfloat \<Rightarrow> error + pyfloat" where
  "ten_pow h y =
     (if is_zero y then Inr (Finite 1)
      else if is_nan y then Inr NaN
      else if y = PosInf then Inr PosInf
      else if y = NegInf then Inr (Finite 0)
      else (let r = h_pow h (Finite 10) y in if is_inf r then Inl OverflowError else Inr r))"

text \<open>Line 270: \<^verbatim>\<open>str(result).rstrip('0').rstrip('.')\<close>.\<close>

definition strip_zeros :: "pyfloat \<Rightarrow> string" where
  "strip_zeros x = py_rstrip (CHR ''.'') (py_rstrip (CHR ''0'') (float_str x))"

definition ExpToDec_step :: "host \<Rightarrow> pattern \<Rightarrow> view \<Rightarrow> region \<Rightarrow> error + view" where
  "ExpToDec_step h r v sel0 =
     (let sel = expand_to_number h ''0123456789.eExX-'' v sel0;
          m = re_match r (view_substr v sel)
      in bindE (match_group m 1) (\<lambda>g1.
         bindE (py_float_of g1) (\<lambda>mantissa.
         bindE (match_group m 2) (\<lambda>g2.
         bindE (py_float_of g2) (\<lambda>exponent.
         bindE (ten_pow h exponent) (\<lambda>p.
         bindE (py_round (float_mul mantissa p) 18) (\<lambda>result.
         Inr (view_replace h v sel (strip_zeros result)))))))))"

definition ExpToDec_run :: "host \<Rightarrow> view \<Rightarrow> error + view" where
  "ExpToDec_run h v =
     bindE (load_pattern v ''convert_src_exp'' CONVERT_SRC_EXP_DFLT) (\<lambda>r.
     Inr (report ''exponential'' (for_each_sel (ExpToDec_step h r) v)))"

subsection \<open>DecToExpCommand\<close>

text \<open>
  Lines 311 to 316.  The two loops need not end, so they are partial functions:
  \<open>None\<close> is a loop that runs forever; \<open>Some (Inl e)\<close> is a loop left by an exception.
\<close>

partial_function (option) divide_loop :: "pyfloat \<Rightarrow> int \<Rightarrow> (error + pyfloat \<times> int) option" where
  "divide_loop base ex =
     (if float_gt base (Finite 10) then
        (case float_truediv base (Finite 10) of
           Inl e \<Rightarrow> Some (Inl e)
         | Inr b \<Rightarrow> divide_loop b (ex + 1))
      else Some (Inr (base, ex)))"

partial_function (option) multiply_loop :: "pyfloat \<Rightarrow> int \<Rightarrow> (error + pyfloat \<times> int) option" where
  "multiply_loop base ex =
     (if float_lt base (Finite 1) then multiply_loop (float_mul base (Finite 10)) (ex - 1)
      else Some (Inr (base, ex)))"

declare divide_loop.simps [code] multiply_loop.simps [code]

definition normalize :: "pyfloat \<Rightarrow> (error + pyfloat \<times> int) option" where
  "normalize base =
     (case divide_loop base 0 of
        None \<Rightarrow> None
      | Some (Inl e) \<Rightarrow> Some (Inl e)
      | Some (Inr (b, ex)) \<Rightarrow> multiply_loop b ex)"

text \<open>Line 321: \<^verbatim>\<open>base + dst_pattern + str(exp)\<close>; the setting must be a string.\<close>

definition exp_text :: "setting \<Rightarrow> pyfloat \<Rightarrow> int \<Rightarrow> error + string" where
  "exp_text dst_pattern base ex =
     (case dst_pattern of
        SString d \<Rightarrow> Inr (strip_zeros base @ d @ py_str_int ex)
      | SOther \<Rightarrow> Inl TypeError)"

definition DecToExp_step :: "host \<Rightarrow> setting \<Rightarrow> view \<Rightarrow> region \<Rightarrow> (error + view) option" where
  "DecToExp_step h dst_pattern v sel0 =
     (let sel = expand_to_number h ''0123456789.'' v sel0
      in case py_float (view_substr v sel) of
           Inl e \<Rightarrow> Some (Inl e)
         | Inr base0 \<Rightarrow>
             (case normalize base0 of
                None \<Rightarrow> None
              | Some (Inl e) \<Rightarrow> Some (Inl e)
              | Some (Inr (base, ex)) \<Rightarrow>
                  Some (bindE (exp_text dst_pattern base ex) (\<lambda>out.
                        Inr (view_replace h v sel out)))))"

text \<open>The loop over the selection when a step may run forever.\<close>

primrec sel_loop_opt ::
  "(view \<Rightarrow> region \<Rightarrow> (error + view) option) \<Rightarrow> nat \<Rightarrow> nat \<Rightarrow> view \<Rightarrow> nat
     \<Rightarrow> (view \<times> nat) option" where
  "sel_loop_opt step 0 i v num_skip = Some (v, num_skip)"
| "sel_loop_opt step (Suc k) i v num_skip =
     (if i < length (selection v) then
        (case step v (selection v ! i) of
           None \<Rightarrow> None
         | Some (Inl e) \<Rightarrow> sel_loop_opt step k (Suc i) v (Suc num_skip)
         | Some (Inr v') \<Rightarrow> sel_loop_opt step k (Suc i) v' num_skip)
      else Some (v, num_skip))"

definition DecToExp_run :: "host \<Rightarrow> view \<Rightarrow> (error + view) option" where
  "DecToExp_run h v =
     (let dst_pattern = settings_get v ''convert_dst_exp'' CONVERT_DST_EXP_DFLT
      in case sel_loop_opt (DecToExp_step h dst_pattern) (length (selection v)) 0 v 0 of
           None \<Rightarrow> None
         | Some res \<Rightarrow> Some (Inr (report ''decimal'' res)))"

section \<open>Concrete editor states for the scenarios\<close>

text \<open>
  A plain editor for the scenarios: a word is a maximal run of characters that are
  neither white space nor one of the default word separators, and after a replacement
  the positions behind the replaced text move with it.
\<close>

definition word_separators :: string where
  "word_separators = ''./'' @ [bslash] @ ''()\"'' @ [squote] @ ''-:,.;<>~!@#$%^&*|+=[]{}`~?''"

definition is_separator :: "char \<Rightarrow> bool" where
  "is_separator c = (c \<in> set word_separators \<or> is_space c)"

fun word_start :: "string \<Rightarrow> nat \<Rightarrow> nat" where
  "word_start buf 0 = 0"
| "word_start buf (Suc i) =
     (if i < length buf \<and> \<not> is_separator (buf ! i) then word_start buf i else Suc i)"

definition word_end :: "string \<Rightarrow> nat \<Rightarrow> nat" where
  "word_end buf i = i + length (takeWhile (\<lambda>c. \<not> is_separator c) (drop i buf))"

definition plain_word :: "string \<Rightarrow> region \<Rightarrow> region" where
  "plain_word buf r =
     Region (int (word_start buf (nat (reg_begin r)))) (int (word_end buf (nat (reg_end r))))"

definition moved_point :: "region \<Rightarrow> nat \<Rightarrow> int \<Rightarrow> int" where
  "moved_point r n p =
     (if p \<le> reg_begin r then p
      else if reg_end r \<le> p then p + int n - (reg_end r - reg_begin r)
      else reg_begin r + int n)"

definition plain_moved :: "region \<Rightarrow> nat \<Rightarrow> region \<Rightarrow> region" where
  "plain_moved r n x = Region (moved_point r n (reg_a x)) (moved_point r n (reg_b x))"

text \<open>
  A power function for the plain editor: the exact power of a finite base to an
  integral exponent, rounded to the nearest float.  Other operands do not occur in
  the scenarios.
\<close>

definition plain_pow :: "pyfloat \<Rightarrow> pyfloat \<Rightarrow> pyfloat" where
  "plain_pow x y =
     (case (x, y) of
        (Finite b, Finite e) \<Rightarrow>
          if b \<noteq> 0 \<and> of_int \<lfloor>e\<rfloor> = e then float_of_rat (b powi \<lfloor>e\<rfloor>) else NaN
      | _ \<Rightarrow> NaN)"

definition plain_host :: host where
  "plain_host = \<lparr>h_word = plain_word, h_moved = plain_moved, h_pow = plain_pow\<rparr>"

text \<open>A view with the given text and selection, no settings and no message.\<close>

definition fresh_view :: "string \<Rightarrow> region list \<Rightarrow> view" where
  "fresh_view txt sels = \<lparr>buffer = txt, selection = sels, settings = Map.empty, status = []\<rparr>"

text \<open>What a user sees of the result of a command: buffer, selection, messages.\<close>

definition shown :: "error + view \<Rightarrow> error + string \<times> region list \<times> string list" where
  "shown res = (case res of Inl e \<Rightarrow> Inl e | Inr v \<Rightarrow> Inr (buffer v, selection v, status v))"

text \<open>
  The integer value of a string of binary digits, read from the left: the reference
  against which \<^verbatim>\<open>int(s, 2)\<close> is compared.
\<close>

definition bin_value :: "string \<Rightarrow> nat" where
  "bin_value s = foldl (\<lambda>acc c. 2 * acc + (if c = CHR ''1'' then 1 else 0)) 0 s"

text \<open>A text between single quotes, as in the configuration example of convert.py.\<close>

definition quoted :: "string \<Rightarrow> string" where
  "quoted s = squote # s @ [squote]"

text \<open>The syntax tree of the quoted binary pattern \<^verbatim>\<open>'B([01]+)'\<close> of that example.\<close>

definition quoted_bin_pattern :: pattern where
  "quoted_bin_pattern =
     \<lparr>pat_source = quoted ''B([01]+)'',
      pat_regex =
        Seq (Lit squote)
         (Seq (Lit (CHR ''B''))
           (Seq (Group 1
                  (Seq (Plus (CharClass False [CChar (CHR ''0''), CChar (CHR ''1'')])) Empty))
             (Seq (Lit squote) Empty))),
      pat_groups = 1\<rparr>"

definition shown_opt ::
  "(error + view) option \<Rightarrow> (error + string \<times> region list \<times> string list) option" where
  "shown_opt res = (case res of None \<Rightarrow> None | Some r \<Rightarrow> Some (shown r))"

text \<open>The syntax trees of the default source patterns.\<close>

definition SRC_BIN_DFLT_pattern :: pattern where
  "SRC_BIN_DFLT_pattern =
     \<lparr>pat_source = CONVERT_SRC_BIN_DFLT,
      pat_regex =
        Seq WordBoundary
         (Seq (Opt (Seq (Lit (CHR ''0'')) (Seq (Lit (CHR ''b'')) Empty)))
           (Seq (Group 1
                  (Seq (Plus (CharClass False [CChar (CHR ''0''), CChar (CHR ''1'')])) Empty))
             (Seq WordBoundary Empty))),
      pat_groups = 1\<rparr>"

definition SRC_HEX_DFLT_pattern :: pattern where
  "SRC_HEX_DFLT_pattern =
     \<lparr>pat_source = CONVERT_SRC_HEX_DFLT,
      pat_regex =
        Seq WordBoundary
         (Seq (Opt (Seq (Lit (CHR ''0'')) (Seq (Lit (CHR ''x'')) Empty)))
           (Seq (Group 1
                  (Seq (Plus (CharClass False
                                [CRange (CHR ''0'') (CHR ''9''), CRange (CHR ''a'') (CHR ''f'')]))
                     Empty))
             (Seq (Opt (Lit (CHR ''h''))) (Seq WordBoundary Empty)))),
      pat_groups = 1\<rparr>"

definition SRC_EXP_DFLT_pattern :: pattern where
  "SRC_EXP_DFLT_pattern =
     \<lparr>pat_source = CONVERT_SRC_EXP_DFLT,
      pat_regex =
        Seq WordBoundary
         (Seq (Group 1
                (Seq (Plus (CharClass False [CDigit False]))
                  (Seq (Lit (CHR ''.''))
                    (Seq (Plus (CharClass False [CDigit False])) Empty))))
           (Seq (Lit (CHR ''e''))
             (Seq (Group 2
                    (Seq (Opt (CharClass False [CChar (CHR ''-''), CChar (CHR ''+'')]))
                      (Seq (Plus (CharClass False [CDigit False])) Empty)))
               (Seq WordBoundary Empty)))),
      pat_groups = 2\<rparr>"

section \<open>Properties\<close>

subsection \<open>The default patterns compile\<close>

lemma compile_src_bin: "re_compile CONVERT_SRC_BIN_DFLT = Inr SRC_BIN_DFLT_pattern"
  by code_simp

lemma compile_src_hex: "re_compile CONVERT_SRC_HEX_DFLT = Inr SRC_HEX_DFLT_pattern"
  by code_simp

lemma load_pattern_unset:
  "settings v name = None \<Longrightarrow> re_compile dflt = Inr d \<Longrightarrow> load_pattern v name dflt = Inr d"
  by (simp add: load_pattern_def settings_get_def)

lemma load_src_bin:
  "settings v ''convert_src_bin'' = None \<Longrightarrow>
   load_pattern v ''convert_src_bin'' CONVERT_SRC_BIN_DFLT = Inr SRC_BIN_DFLT_pattern"
  by (rule load_pattern_unset [OF _ compile_src_bin])

lemma load_src_hex:
  "settings v ''convert_src_hex'' = None \<Longrightarrow>
   load_pattern v ''convert_src_hex'' CONVERT_SRC_HEX_DFLT = Inr SRC_HEX_DFLT_pattern"
  by (rule load_pattern_unset [OF _ compile_src_hex])

subsection \<open>One selection, two selections\<close>

lemma for_each_sel_single:
  "selection v = [sel] \<Longrightarrow>
   for_each_sel step v = (case step v sel of Inl e \<Rightarrow> (v, 1) | Inr v' \<Rightarrow> (v', 0))"
  by (simp add: for_each_sel_def split: sum.splits)

lemma expand_nonempty: "\<not> reg_empty sel \<Longrightarrow> expand_to_word h r v sel = Inr sel"
  by (simp add: expand_to_word_def)

lemma report_none: "report kind (v, 0) = v"
  by (simp add: report_def)

lemma report_one:
  "report kind (v, Suc 0) = status_message v (''Skipped 1 invalid '' @ kind @ '' value(s)!'')"
proof -
  have "py_str_int 1 = ''1''" by code_simp
  then show ?thesis by (simp add: report_def)
qed

lemma report_two:
  "report kind (v, Suc (Suc 0)) = status_message v (''Skipped 2 invalid '' @ kind @ '' value(s)!'')"
proof -
  have "py_str_int 2 = ''2''" by code_simp
  then show ?thesis by (simp add: report_def)
qed

subsection \<open>HexToDec on the texts of the scenarios\<close>

lemma HexToDec_step_nomatch:
  assumes "\<not> reg_empty sel" and "re_match r (view_substr v sel) = None"
  shows "HexToDec_step h r v sel = Inl AttributeError"
  using assms by (simp add: HexToDec_step_def expand_nonempty bindE_def match_group_def)

lemma HexToDec_step_match:
  assumes "\<not> reg_empty sel"
    and "match_group (re_match r (view_substr v sel)) (Suc 0) = Inr (Some g)"
    and "py_int 16 g = Inr n"
  shows "HexToDec_step h r v sel = Inr (view_replace h v sel (py_str_int n))"
  using assms by (simp add: HexToDec_step_def expand_nonempty bindE_def py_int_of_def)

lemma hex_nomatch_0x1Ah_upper: "re_match SRC_HEX_DFLT_pattern ''0x1Ah'' = None"
  by code_simp

lemma hex_group_0x1ah_lower:
  "match_group (re_match SRC_HEX_DFLT_pattern ''0x1ah'') (Suc 0) = Inr (Some ''1a'')"
  by code_simp

lemma int_16_1a: "py_int 16 ''1a'' = Inr 26"
  by code_simp

lemma str_26: "py_str_int 26 = ''26''"
  by code_simp

lemma HexToDec_step_0x1Ah_upper:
  assumes "\<not> reg_empty sel" and "view_substr v sel = ''0x1Ah''"
  shows "HexToDec_step h SRC_HEX_DFLT_pattern v sel = Inl AttributeError"
  using assms by (simp add: HexToDec_step_nomatch hex_nomatch_0x1Ah_upper)

lemma HexToDec_step_0x1ah_lower:
  assumes "\<not> reg_empty sel" and "view_substr v sel = ''0x1ah''"
  shows "HexToDec_step h SRC_HEX_DFLT_pattern v sel = Inr (view_replace h v sel ''26'')"
  using HexToDec_step_match [OF assms(1), of SRC_HEX_DFLT_pattern v "''1a''" 26 h] assms(2)
  by (simp add: hex_group_0x1ah_lower int_16_1a str_26)

text \<open>
  C3.  The claim: HexToDec with default settings on a single non-empty selection with
  the text \<^verbatim>\<open>0x1Ah\<close> replaces the selection with \<^verbatim>\<open>26\<close>.  On the code the default
  pattern \<^verbatim>\<open>\b(?:0x)?([0-9a-f]+)h?\b\<close> is compiled without flags and its class has
  the lowercase letters only, so \<^verbatim>\<open>0x1Ah\<close> does not match: the buffer keeps the
  text and one skipped value is reported.
\<close>

theorem C3_counterexample:
  "shown (HexToDec_run plain_host (fresh_view ''0x1Ah'' [Region 0 5]))
     = Inr (''0x1Ah'', [Region 0 5], [''Skipped 1 invalid hexadecimal value(s)!''])"
  by code_simp

text \<open>
  C3 as amended: HexToDec with default settings on a single non-empty selection
  replaces the text \<^verbatim>\<open>0x1ah\<close>, written with a lowercase digit, with \<^verbatim>\<open>26\<close> and reports
  nothing; the text \<^verbatim>\<open>0x1Ah\<close> is left as it is and reported as one skipped value.
\<close>

theorem C3_HexToDec_0x1ah:
  assumes "settings v ''convert_src_hex'' = None"
    and "selection v = [sel]" and "\<not> reg_empty sel"
  shows "(view_substr v sel = ''0x1ah'' \<longrightarrow>
            HexToDec_run h v = Inr (view_replace h v sel ''26''))
       \<and> (view_substr v sel = ''0x1Ah'' \<longrightarrow>
            HexToDec_run h v
              = Inr (status_message v ''Skipped 1 invalid hexadecimal value(s)!''))"
  using assms
  by (simp add: HexToDec_run_def load_src_hex bindE_def for_each_sel_single
        HexToDec_step_0x1Ah_upper HexToDec_step_0x1ah_lower report_none report_one)

theorem C3_HexToDec_0x1ah_witness:
  "buffer (view_replace plain_host (fresh_view ''0x1ah'' [Region 0 5]) (Region 0 5) ''26'') = ''26''
   \<and> HexToDec_run plain_host (fresh_view ''0x1ah'' [Region 0 5])
       = Inr (view_replace plain_host (fresh_view ''0x1ah'' [Region 0 5]) (Region 0 5) ''26'')"
  using C3_HexToDec_0x1ah [of "fresh_view ''0x1ah'' [Region 0 5]" "Region 0 5" plain_host]
  by (simp add: fresh_view_def view_substr_def view_replace_def reg_empty_def reg_begin_def
        reg_end_def)

subsection \<open>Two selections\<close>

lemma for_each_sel_pair:
  assumes "selection v = [s1, s2]"
  shows "for_each_sel step v =
     (case step v s1 of
        Inl e \<Rightarrow> (case step v s2 of Inl e' \<Rightarrow> (v, Suc (Suc 0)) | Inr v' \<Rightarrow> (v', Suc 0))
      | Inr v1 \<Rightarrow>
          if Suc 0 < length (selection v1) then
            (case step v1 (selection v1 ! Suc 0) of Inl e \<Rightarrow> (v1, Suc 0) | Inr v2 \<Rightarrow> (v2, 0))
          else (v1, 0))"
  using assms by (simp add: for_each_sel_def split: sum.splits)

lemma selection_view_replace:
  "selection (view_replace h v r txt) = map (h_moved h r (length txt)) (selection v)"
  by (simp add: view_replace_def)

lemma hex_nomatch_FF: "re_match SRC_HEX_DFLT_pattern ''FF'' = None"
  by code_simp

lemma hex_nomatch_ZZ: "re_match SRC_HEX_DFLT_pattern ''ZZ'' = None"
  by code_simp

lemma hex_group_ff: "match_group (re_match SRC_HEX_DFLT_pattern ''ff'') (Suc 0) = Inr (Some ''ff'')"
  by code_simp

lemma int_16_ff: "py_int 16 ''ff'' = Inr 255"
  by code_simp

lemma str_255: "py_str_int 255 = ''255''"
  by code_simp

lemma HexToDec_step_FF:
  assumes "\<not> reg_empty sel" and "view_substr v sel = ''FF''"
  shows "HexToDec_step h SRC_HEX_DFLT_pattern v sel = Inl AttributeError"
  using assms by (simp add: HexToDec_step_nomatch hex_nomatch_FF)

lemma HexToDec_step_ZZ:
  assumes "\<not> reg_empty sel" and "view_substr v sel = ''ZZ''"
  shows "HexToDec_step h SRC_HEX_DFLT_pattern v sel = Inl AttributeError"
  using assms by (simp add: HexToDec_step_nomatch hex_nomatch_ZZ)

lemma HexToDec_step_ff:
  assumes "\<not> reg_empty sel" and "view_substr v sel = ''ff''"
  shows "HexToDec_step h SRC_HEX_DFLT_pattern v sel = Inr (view_replace h v sel ''255'')"
  using HexToDec_step_match [OF assms(1), of SRC_HEX_DFLT_pattern v "''ff''" 255 h] assms(2)
  by (simp add: hex_group_ff int_16_ff str_255)

text \<open>
  C1.  The claim: HexToDec with default settings over two non-empty selections with
  the texts \<^verbatim>\<open>FF\<close> and \<^verbatim>\<open>ZZ\<close> replaces \<^verbatim>\<open>FF\<close> with \<^verbatim>\<open>255\<close>, leaves \<^verbatim>\<open>ZZ\<close> and reports
  one skipped value.  On the code \<^verbatim>\<open>FF\<close> does not match the default pattern either
  (its class is \<^verbatim>\<open>[0-9a-f]\<close>, and the pattern is compiled without flags): the buffer
  is unchanged and two skipped values are reported.
\<close>

theorem C1_counterexample:
  "shown (HexToDec_run plain_host (fresh_view ''FF ZZ'' [Region 0 2, Region 3 5]))
     = Inr (''FF ZZ'', [Region 0 2, Region 3 5], [''Skipped 2 invalid hexadecimal value(s)!''])"
  by code_simp

text \<open>
  C1 as amended: HexToDec with default settings over two non-empty selections, one
  with the text \<^verbatim>\<open>FF\<close> and one with the text \<^verbatim>\<open>ZZ\<close> in either order, leaves both
  untouched and reports a skip count of 2.  With \<^verbatim>\<open>ff\<close> in the place of \<^verbatim>\<open>FF\<close>, the
  selection \<^verbatim>\<open>ff\<close> is replaced with \<^verbatim>\<open>255\<close>, the selection \<^verbatim>\<open>ZZ\<close> is left untouched and
  the skip count is 1 (when \<^verbatim>\<open>ff\<close> comes first, for an editor that keeps the second
  selection on its text \<^verbatim>\<open>ZZ\<close> after the replacement).
\<close>

theorem C1_HexToDec_two_selections:
  assumes unset: "settings v ''convert_src_hex'' = None"
    and sels: "selection v = [s1, s2]" "\<not> reg_empty s1" "\<not> reg_empty s2"
  shows "(view_substr v s1 = ''FF'' \<and> view_substr v s2 = ''ZZ'' \<longrightarrow>
            HexToDec_run h v
              = Inr (status_message v ''Skipped 2 invalid hexadecimal value(s)!''))
       \<and> (view_substr v s1 = ''ZZ'' \<and> view_substr v s2 = ''FF'' \<longrightarrow>
            HexToDec_run h v
              = Inr (status_message v ''Skipped 2 invalid hexadecimal value(s)!''))
       \<and> (view_substr v s1 = ''ZZ'' \<and> view_substr v s2 = ''ff'' \<longrightarrow>
            HexToDec_run h v
              = Inr (status_message (view_replace h v s2 ''255'')
                       ''Skipped 1 invalid hexadecimal value(s)!''))
       \<and> (view_substr v s1 = ''ff''
            \<and> \<not> reg_empty (h_moved h s1 (length ''255'') s2)
            \<and> view_substr (view_replace h v s1 ''255'') (h_moved h s1 (length ''255'') s2) = ''ZZ'' \<longrightarrow>
            HexToDec_run h v
              = Inr (status_message (view_replace h v s1 ''255'')
                       ''Skipped 1 invalid hexadecimal value(s)!''))"
proof -
  have run: "HexToDec_run h v
      = Inr (report ''hexadecimal'' (for_each_sel (HexToDec_step h SRC_HEX_DFLT_pattern) v))"
    using unset by (simp add: HexToDec_run_def load_src_hex bindE_def)
  have a: "view_substr v s1 = ''FF'' \<and> view_substr v s2 = ''ZZ'' \<longrightarrow>
      for_each_sel (HexToDec_step h SRC_HEX_DFLT_pattern) v = (v, Suc (Suc 0))"
    using sels by (simp add: for_each_sel_pair HexToDec_step_FF HexToDec_step_ZZ)
  have b: "view_substr v s1 = ''ZZ'' \<and> view_substr v s2 = ''FF'' \<longrightarrow>
      for_each_sel (HexToDec_step h SRC_HEX_DFLT_pattern) v = (v, Suc (Suc 0))"
    using sels by (simp add: for_each_sel_pair HexToDec_step_FF HexToDec_step_ZZ)
  have c: "view_substr v s1 = ''ZZ'' \<and> view_substr v s2 = ''ff'' \<longrightarrow>
      for_each_sel (HexToDec_step h SRC_HEX_DFLT_pattern) v
        = (view_replace h v s2 ''255'', Suc 0)"
    using sels by (simp add: for_each_sel_pair HexToDec_step_ff HexToDec_step_ZZ)
  have d: "view_substr v s1 = ''ff''
            \<and> \<not> reg_empty (h_moved h s1 (length ''255'') s2)
            \<and> view_substr (view_replace h v s1 ''255'') (h_moved h s1 (length ''255'') s2) = ''ZZ'' \<longrightarrow>
      for_each_sel (HexToDec_step h SRC_HEX_DFLT_pattern) v
        = (view_replace h v s1 ''255'', Suc 0)"
    using sels
    by (simp add: for_each_sel_pair HexToDec_step_ff HexToDec_step_ZZ selection_view_replace)
  show ?thesis
    using a b c d by (simp add: run report_one report_two)
qed

theorem C1_HexToDec_two_selections_witness:
  "shown (HexToDec_run plain_host (fresh_view ''ff ZZ'' [Region 0 2, Region 3 5]))
     = Inr (''255 ZZ'', [Region 0 3, Region 4 6], [''Skipped 1 invalid hexadecimal value(s)!''])"
proof -
  let ?v = "fresh_view ''ff ZZ'' [Region 0 2, Region 3 5]"
  have moved: "h_moved plain_host (Region 0 2) (length ''255'') (Region 3 5) = Region 4 6"
    by code_simp
  have kept: "view_substr (view_replace plain_host ?v (Region 0 2) ''255'') (Region 4 6) = ''ZZ''"
    by code_simp
  have "HexToDec_run plain_host ?v
      = Inr (status_message (view_replace plain_host ?v (Region 0 2) ''255'')
               ''Skipped 1 invalid hexadecimal value(s)!'')"
    using C1_HexToDec_two_selections [of ?v "Region 0 2" "Region 3 5" plain_host] moved kept
    by (simp add: fresh_view_def view_substr_def reg_empty_def reg_begin_def reg_end_def)
  moreover have "shown (Inr (status_message (view_replace plain_host ?v (Region 0 2) ''255'')
               ''Skipped 1 invalid hexadecimal value(s)!''))
     = Inr (''255 ZZ'', [Region 0 3, Region 4 6], [''Skipped 1 invalid hexadecimal value(s)!''])"
    by code_simp
  ultimately show ?thesis by simp
qed

subsection \<open>The configuration resolver\<close>

lemma compile_unbalanced: "re_compile ''('' = Inl ReError"
  by code_simp

text \<open>
  C6.  \<^verbatim>\<open>load_pattern\<close> never raises to its caller, given that the default compiles:
  a configured string that compiles is returned compiled; for a configured string
  that does not compile, a configured value that is not a string, or no configured
  value, the compiled default is returned.
\<close>

theorem C6_load_pattern_never_raises:
  assumes "re_compile dflt = Inr d"
  shows "(\<forall>p r. settings v name = Some (SString p) \<and> re_compile p = Inr r
            \<longrightarrow> load_pattern v name dflt = Inr r)
       \<and> (\<forall>p e. settings v name = Some (SString p) \<and> re_compile p = Inl e
            \<longrightarrow> load_pattern v name dflt = Inr d)
       \<and> (settings v name = Some SOther \<longrightarrow> load_pattern v name dflt = Inr d)
       \<and> (settings v name = None \<longrightarrow> load_pattern v name dflt = Inr d)
       \<and> (\<exists>r. load_pattern v name dflt = Inr r)"
  using assms
  by (auto simp: load_pattern_def settings_get_def split: option.splits setting.splits sum.splits)

theorem C6_load_pattern_never_raises_witness:
  "re_compile CONVERT_SRC_HEX_DFLT = Inr SRC_HEX_DFLT_pattern
   \<and> re_compile ''('' = Inl ReError
   \<and> load_pattern ((fresh_view [] []) \<lparr>settings := [''convert_src_hex'' \<mapsto> SString ''('']\<rparr>)
        ''convert_src_hex'' CONVERT_SRC_HEX_DFLT = Inr SRC_HEX_DFLT_pattern"
  using C6_load_pattern_never_raises [OF compile_src_hex,
      of "(fresh_view [] []) \<lparr>settings := [''convert_src_hex'' \<mapsto> SString ''('']\<rparr>"
         "''convert_src_hex''"]
    compile_src_hex compile_unbalanced
  by simp

subsection \<open>Characters of numerals\<close>

lemma of_char_digit_char:
  "d < 16 \<Longrightarrow> (of_char (digit_char d) :: nat) = (if d < 10 then 48 + d else 87 + d)"
  by (simp add: digit_char_def)

lemma digit_val_digit_char: "d < 16 \<Longrightarrow> digit_val (digit_char d) = Some d"
  by (simp add: digit_val_def is_digit_def is_lower_def is_upper_def char_in_def
        of_char_digit_char)

lemma digit_char_neq:
  assumes "d < 16" and "(of_char c :: nat) < 48"
  shows "digit_char d \<noteq> c"
proof
  assume "digit_char d = c"
  then have "(of_char (digit_char d) :: nat) = of_char c" by simp
  with assms show False by (simp add: of_char_digit_char split: if_splits)
qed

lemma digit_char_not_space: "d < 16 \<Longrightarrow> \<not> is_space (digit_char d)"
  by (simp add: is_space_def char_in_def of_char_digit_char digit_char_neq)

lemma digit_char_is_word: "d < 16 \<Longrightarrow> is_word (digit_char d)"
  by (simp add: is_word_def is_alnum_def is_digit_def is_lower_def char_in_def
        of_char_digit_char)

lemma digit_char_hex_class:
  "d < 16 \<Longrightarrow>
   class_matches False [CRange (CHR ''0'') (CHR ''9''), CRange (CHR ''a'') (CHR ''f'')]
     (digit_char d)"
  by (simp add: class_matches_def char_in_def of_char_digit_char)

lemma digit_char_not_x:
  assumes "d < 16"
  shows "digit_char d \<noteq> CHR ''x''" and "digit_char d \<noteq> CHR ''X''"
proof -
  have "(of_char (digit_char d) :: nat) \<noteq> of_char (CHR ''x'')"
    using assms by (simp add: of_char_digit_char)
  then show "digit_char d \<noteq> CHR ''x''" by auto
  have "(of_char (digit_char d) :: nat) \<noteq> of_char (CHR ''X'')"
    using assms by (simp add: of_char_digit_char)
  then show "digit_char d \<noteq> CHR ''X''" by auto
qed

subsection \<open>Numerals read back\<close>

lemma digits_val_append:
  "digits_val b acc (xs @ ys)
     = (case digits_val b acc xs of None \<Rightarrow> None | Some a \<Rightarrow> digits_val b a ys)"
  by (induction xs arbitrary: acc) (auto split: option.splits)

lemma nat_digits_unfold:
  "nat_digits b n = (if b < 2 \<or> n < b then [digit_char n]
                     else nat_digits b (n div b) @ [digit_char (n mod b)])"
  by (rule nat_digits.simps)

lemma digits_val_nat_digits:
  assumes "2 \<le> b" and "b \<le> 16"
  shows "digits_val b 0 (nat_digits b n) = Some n"
proof (induction n rule: less_induct)
  case (less n)
  show ?case
  proof (cases "n < b")
    case True
    with assms show ?thesis
      by (subst nat_digits_unfold) (simp add: digit_val_digit_char)
  next
    case False
    with assms have "n div b < n" by simp
    then have ih: "digits_val b 0 (nat_digits b (n div b)) = Some (n div b)"
      by (rule less.IH)
    have "n mod b < b" using assms by simp
    then have "n mod b < 16" using assms by linarith
    with False assms ih show ?thesis
      by (subst nat_digits_unfold) (simp add: digits_val_append digit_val_digit_char)
  qed
qed

lemma nat_digits_chars:
  assumes "2 \<le> b" and "b \<le> 16" and "c \<in> set (nat_digits b n)"
  shows "\<exists>d<16. c = digit_char d"
  using assms(3)
proof (induction n rule: less_induct)
  case (less n)
  show ?case
  proof (cases "n < b")
    case True
    with less.prems assms(1,2) show ?thesis
      by (subst (asm) nat_digits_unfold) (auto intro!: exI [of _ n])
  next
    case False
    with assms have lt: "n div b < n" by simp
    have "n mod b < b" using assms(1) by simp
    then have m: "n mod b < 16" using assms(2) by linarith
    from less.prems False assms(1)
    have "c \<in> set (nat_digits b (n div b)) \<or> c = digit_char (n mod b)"
      by (subst (asm) nat_digits_unfold) auto
    with less.IH [OF lt] m show ?thesis by auto
  qed
qed

lemma nat_digits_nonempty: "nat_digits b n \<noteq> []"
  by (subst nat_digits_unfold) simp

subsection \<open>Matching a run of class characters\<close>

lemma rev_upt_Suc: "i \<le> n \<Longrightarrow> rev [i..<Suc n] = n # rev [i..<n]"
  by simp

lemma star_iter_class_all:
  assumes "\<forall>j. i \<le> j \<and> j < length s \<longrightarrow> class_matches neg items (s ! j)"
    and "i + n = length s"
  shows "star_iter (rmatch (CharClass neg items) s) n (i, g)
           = map (\<lambda>j. (j, g)) (rev [i..<Suc (length s)])"
  using assms
proof (induction n arbitrary: i)
  case 0
  then show ?case by simp
next
  case (Suc n)
  from Suc.prems have lt: "i < length s" by simp
  from Suc.prems have m: "class_matches neg items (s ! i)" by simp
  have ih: "star_iter (rmatch (CharClass neg items) s) n (Suc i, g)
              = map (\<lambda>j. (j, g)) (rev [Suc i..<Suc (length s)])"
    using Suc.prems by (intro Suc.IH) auto
  have "[i..<Suc (length s)] = i # [Suc i..<Suc (length s)]"
    using lt by (simp add: upt_conv_Cons del: upt_Suc)
  then show ?case
    using lt m ih by (simp del: upt_Suc)
qed

lemma rmatch_plus_class_all:
  assumes "\<forall>j. i \<le> j \<and> j < length s \<longrightarrow> class_matches neg items (s ! j)"
    and "i < length s"
  shows "rmatch (Plus (CharClass neg items)) s (i, g)
           = (length s, g) # map (\<lambda>j. (j, g)) (rev [Suc i..<length s])"
proof -
  have "star_iter (rmatch (CharClass neg items) s) (length s - Suc i) (Suc i, g)
          = map (\<lambda>j. (j, g)) (rev [Suc i..<Suc (length s)])"
    using assms by (intro star_iter_class_all) auto
  moreover have "rev [Suc i..<Suc (length s)] = length s # rev [Suc i..<length s]"
    using assms(2) by (intro rev_upt_Suc) simp
  ultimately show ?thesis
    using assms by simp
qed

lemma at_boundary_start: "s \<noteq> [] \<Longrightarrow> is_word (hd s) \<Longrightarrow> at_boundary s 0"
  by (cases s) (simp_all add: at_boundary_def)

lemma at_boundary_end: "s \<noteq> [] \<Longrightarrow> is_word (last s) \<Longrightarrow> at_boundary s (length s)"
  by (simp add: at_boundary_def last_conv_nth)

subsection \<open>The default binary pattern on a string of binary digits\<close>

lemma bin_chars:
  assumes "set s \<subseteq> {CHR ''0'', CHR ''1''}" and "c \<in> set s"
  shows "c = CHR ''0'' \<or> c = CHR ''1''"
  using assms by auto

lemma bin_char_word: "c = CHR ''0'' \<or> c = CHR ''1'' \<Longrightarrow> is_word c"
  by (auto simp: is_word_def is_alnum_def is_digit_def char_in_def)

lemma bin_char_not_space: "c = CHR ''0'' \<or> c = CHR ''1'' \<Longrightarrow> \<not> is_space c"
  by (auto simp: is_space_def char_in_def)

lemma bin_match:
  assumes ne: "s \<noteq> []" and bin: "set s \<subseteq> {CHR ''0'', CHR ''1''}"
  shows "match_group (re_match SRC_BIN_DFLT_pattern s) (Suc 0) = Inr (Some s)"
proof -
  let ?items = "[CChar (CHR ''0''), CChar (CHR ''1'')]"
  have cls: "\<forall>j. 0 \<le> j \<and> j < length s \<longrightarrow> class_matches False ?items (s ! j)"
  proof (intro allI impI)
    fix j assume "0 \<le> j \<and> j < length s"
    then have "s ! j \<in> set s" by simp
    with bin have "s ! j = CHR ''0'' \<or> s ! j = CHR ''1''" by auto
    then show "class_matches False ?items (s ! j)" by (auto simp: class_matches_def)
  qed
  have plus: "rmatch (Plus (CharClass False ?items)) s (0, Map.empty)
      = (length s, Map.empty) # map (\<lambda>j. (j, Map.empty)) (rev [Suc 0..<length s])"
    using cls ne by (intro rmatch_plus_class_all) auto
  have hd_w: "is_word (hd s)"
    using ne bin by (intro bin_char_word) (cases s, auto)
  have last_w: "is_word (last s)"
    using ne bin by (intro bin_char_word) (metis bin_chars bin last_in_set)
  have b0: "at_boundary s 0" using ne hd_w by (rule at_boundary_start)
  have bn: "at_boundary s (length s)" using ne last_w by (rule at_boundary_end)
  have nob: "\<not> (Suc 0 < length s \<and> s ! Suc 0 = CHR ''b'')"
  proof
    assume a: "Suc 0 < length s \<and> s ! Suc 0 = CHR ''b''"
    then have "s ! Suc 0 \<in> set s" by (intro nth_mem) simp
    with bin have "s ! Suc 0 = CHR ''0'' \<or> s ! Suc 0 = CHR ''1''" by auto
    with a show False by auto
  qed
  have "\<exists>rest. rmatch (pat_regex SRC_BIN_DFLT_pattern) s (0, Map.empty)
          = (length s, [Suc 0 \<mapsto> (0, length s)]) # rest"
    using b0 bn nob ne
    by (auto simp add: SRC_BIN_DFLT_pattern_def plus simp del: rmatch.simps(13))
  then obtain rest where
    "rmatch (pat_regex SRC_BIN_DFLT_pattern) s (0, Map.empty)
       = (length s, [Suc 0 \<mapsto> (0, length s)]) # rest" ..
  then have "re_match SRC_BIN_DFLT_pattern s
      = Some \<lparr>m_string = s, m_spans = [Suc 0 \<mapsto> (0, length s)], m_groups = 1\<rparr>"
    by (simp add: re_match_def SRC_BIN_DFLT_pattern_def)
  then show ?thesis by (simp add: match_group_def)
qed

lemma py_strip_id:
  assumes "s \<noteq> []" and "\<not> is_space (hd s)" and "\<not> is_space (last s)"
  shows "py_strip s = s"
proof -
  have "dropWhile is_space s = s"
    using assms by (cases s) auto
  moreover have "dropWhile is_space (rev s) = rev s"
    using assms by (cases "rev s") (auto simp: hd_rev dest: arg_cong [where f = hd])
  ultimately show ?thesis by (simp add: py_strip_def)
qed

lemma digits_val_bin:
  assumes "set s \<subseteq> {CHR ''0'', CHR ''1''}"
  shows "digits_val 2 acc s
           = Some (foldl (\<lambda>acc c. 2 * acc + (if c = CHR ''1'' then 1 else 0)) acc s)"
  using assms
proof (induction s arbitrary: acc)
  case Nil
  then show ?case by simp
next
  case (Cons c cs)
  then have c: "c = CHR ''0'' \<or> c = CHR ''1''" by auto
  have dv: "digit_val c = Some (if c = CHR ''1'' then 1 else 0)"
    using c by (auto simp: digit_val_def is_digit_def char_in_def)
  from Cons show ?case
    using c by (auto simp: dv mult.commute)
qed

lemma py_int_bin:
  assumes ne: "s \<noteq> []" and bin: "set s \<subseteq> {CHR ''0'', CHR ''1''}"
  shows "py_int 2 s = Inr (int (bin_value s))"
proof -
  have h: "hd s = CHR ''0'' \<or> hd s = CHR ''1''"
    using ne bin by (cases s) auto
  have l: "last s = CHR ''0'' \<or> last s = CHR ''1''"
    using ne bin by (meson bin_chars last_in_set)
  have strip: "py_strip s = s"
    using ne h l by (intro py_strip_id bin_char_not_space)
  have sign: "strip_sign s = (False, s)"
    using ne h by (cases s) (auto simp: strip_sign_def)
  have pre: "strip_base_prefix 2 s = s"
  proof (cases s)
    case Nil
    then show ?thesis by (simp add: strip_base_prefix_def)
  next
    case (Cons z r)
    show ?thesis
    proof (cases r)
      case Nil
      with Cons show ?thesis by (simp add: strip_base_prefix_def)
    next
      case (Cons x r')
      with \<open>s = z # r\<close> bin have "x = CHR ''0'' \<or> x = CHR ''1''" by auto
      with Cons \<open>s = z # r\<close> show ?thesis by (auto simp: strip_base_prefix_def)
    qed
  qed
  show ?thesis
    using ne by (simp add: py_int_def strip sign pre digits_val_bin [OF bin] bin_value_def)
qed

subsection \<open>The default templates\<close>

lemma scan_dst_hex: "fmt_scan ''{0:#x}'' None ''{0:#x}'' = Inr [FField ''0:#x'']"
  by code_simp

lemma scan_dst_bin: "fmt_scan ''{0:b}'' None ''{0:b}'' = Inr [FField ''0:b'']"
  by code_simp

lemma field_index_0: "field_index Undecided ''0'' = Inr (0, Manual)"
  by code_simp

lemma format_dst_hex: "py_format CONVERT_DST_HEX_DFLT n = Inr (py_hex n)"
  by (simp add: py_format_def CONVERT_DST_HEX_DFLT_def scan_dst_hex bindE_def field_index_0
        format_int_def py_hex_def)

lemma format_dst_bin: "py_format CONVERT_DST_BIN_DFLT n = Inr (int_digits 2 [] n)"
  by (simp add: py_format_def CONVERT_DST_BIN_DFLT_def scan_dst_bin bindE_def field_index_0
        format_int_def)

lemma format_setting_hex_unset:
  "settings v ''convert_dst_hex'' = None \<Longrightarrow>
   format_setting (settings_get v ''convert_dst_hex'' CONVERT_DST_HEX_DFLT) n = Inr (py_hex n)"
  by (simp add: settings_get_def format_setting_def format_dst_hex)

lemma format_setting_bin_unset:
  "settings v ''convert_dst_bin'' = None \<Longrightarrow>
   format_setting (settings_get v ''convert_dst_bin'' CONVERT_DST_BIN_DFLT) n
     = Inr (int_digits 2 [] n)"
  by (simp add: settings_get_def format_setting_def format_dst_bin)

subsection \<open>Steps of the commands on a non-empty selection\<close>

lemma BinToHex_step_match:
  assumes "\<not> reg_empty sel"
    and "match_group (re_match r (view_substr v sel)) (Suc 0) = Inr (Some g)"
    and "py_int 2 g = Inr n"
    and "format_setting dst n = Inr out"
  shows "BinToHex_step h dst r v sel = Inr (view_replace h v sel out)"
  using assms by (simp add: BinToHex_step_def expand_nonempty bindE_def py_int_of_def)

lemma BinToDec_step_match:
  assumes "\<not> reg_empty sel"
    and "match_group (re_match r (view_substr v sel)) (Suc 0) = Inr (Some g)"
    and "py_int 2 g = Inr n"
  shows "BinToDec_step h r v sel = Inr (view_replace h v sel (py_str_int n))"
  using assms by (simp add: BinToDec_step_def expand_nonempty bindE_def py_int_of_def)

lemma HexToBin_step_match:
  assumes "\<not> reg_empty sel"
    and "match_group (re_match r (view_substr v sel)) (Suc 0) = Inr (Some g)"
    and "py_int 16 g = Inr n"
    and "format_setting dst n = Inr out"
  shows "HexToBin_step h dst r v sel = Inr (view_replace h v sel out)"
  using assms by (simp add: HexToBin_step_def expand_nonempty bindE_def py_int_of_def)

lemma DecTo_step_value:
  assumes "\<not> reg_empty sel"
    and "py_int 10 (py_strip (view_substr v sel)) = Inr n"
    and "format_setting dst n = Inr out"
  shows "DecTo_step h dst v sel = Inr (view_replace h v sel out)"
  using assms by (simp add: DecTo_step_def bindE_def)

text \<open>
  C5.  For every non-empty string \<open>s\<close> of the digits 0 and 1, BinToHex with the default
  pattern and the default template replaces a selection with the text \<open>s\<close> by
  \<^verbatim>\<open>hex(int(s, 2))\<close>: \<^verbatim>\<open>int(s, 2)\<close> is the value of \<open>s\<close> read in base 2, and the new
  text is its \<^verbatim>\<open>0x\<close>-prefixed lowercase hexadecimal numeral.
\<close>

theorem C5_BinToHex_is_hex_of_int:
  assumes "s \<noteq> []" and "set s \<subseteq> {CHR ''0'', CHR ''1''}"
    and "settings v ''convert_src_bin'' = None" and "settings v ''convert_dst_hex'' = None"
    and "selection v = [sel]" and "\<not> reg_empty sel" and "view_substr v sel = s"
  shows "py_int 2 s = Inr (int (bin_value s))
       \<and> BinToHex_run h v = Inr (view_replace h v sel (py_hex (int (bin_value s))))"
proof -
  have val: "py_int 2 s = Inr (int (bin_value s))"
    using assms(1,2) by (rule py_int_bin)
  have "BinToHex_step h (settings_get v ''convert_dst_hex'' CONVERT_DST_HEX_DFLT)
          SRC_BIN_DFLT_pattern v sel
        = Inr (view_replace h v sel (py_hex (int (bin_value s))))"
    using assms(6)
  proof (rule BinToHex_step_match)
    show "match_group (re_match SRC_BIN_DFLT_pattern (view_substr v sel)) (Suc 0) = Inr (Some s)"
      using assms(1,2,7) by (simp add: bin_match)
    show "py_int 2 s = Inr (int (bin_value s))" by (rule val)
    show "format_setting (settings_get v ''convert_dst_hex'' CONVERT_DST_HEX_DFLT)
            (int (bin_value s)) = Inr (py_hex (int (bin_value s)))"
      using assms(4) by (rule format_setting_hex_unset)
  qed
  then have "BinToHex_run h v = Inr (view_replace h v sel (py_hex (int (bin_value s))))"
    using assms(3,5)
    by (simp add: BinToHex_run_def load_src_bin bindE_def for_each_sel_single report_none)
  with val show ?thesis by simp
qed

theorem C5_BinToHex_is_hex_of_int_witness:
  "shown (BinToHex_run plain_host (fresh_view ''101110'' [Region 0 6]))
     = Inr (''0x2e'', [Region 0 4], [])"
proof -
  let ?v = "fresh_view ''101110'' [Region 0 6]"
  have "BinToHex_run plain_host ?v
      = Inr (view_replace plain_host ?v (Region 0 6) (py_hex (int (bin_value ''101110''))))"
    using C5_BinToHex_is_hex_of_int [of "''101110''" ?v "Region 0 6" plain_host]
    by (simp add: fresh_view_def view_substr_def reg_empty_def reg_begin_def reg_end_def)
  moreover have "shown (Inr (view_replace plain_host ?v (Region 0 6)
                    (py_hex (int (bin_value ''101110'')))))
      = Inr (''0x2e'', [Region 0 4], [])"
    by code_simp
  ultimately show ?thesis by simp
qed

subsection \<open>The default hexadecimal pattern on the output of DecToHex\<close>

lemma hex_match_general:
  assumes len: "Suc (Suc 0) < length s"
    and s0: "s ! 0 = CHR ''0''" and s1: "s ! Suc 0 = CHR ''x''"
    and cls: "\<forall>j. Suc (Suc 0) \<le> j \<and> j < length s \<longrightarrow>
               class_matches False [CRange (CHR ''0'') (CHR ''9''), CRange (CHR ''a'') (CHR ''f'')]
                 (s ! j)"
    and last_w: "is_word (last s)"
  shows "match_group (re_match SRC_HEX_DFLT_pattern s) (Suc 0) = Inr (Some (drop 2 s))"
proof -
  let ?items = "[CRange (CHR ''0'') (CHR ''9''), CRange (CHR ''a'') (CHR ''f'')]"
  have ne: "s \<noteq> []" using len by auto
  have plus: "rmatch (Plus (CharClass False ?items)) s (Suc (Suc 0), Map.empty)
      = (length s, Map.empty) # map (\<lambda>j. (j, Map.empty)) (rev [Suc (Suc (Suc 0))..<length s])"
    using cls len by (intro rmatch_plus_class_all) auto
  have "is_word (CHR ''0'')"
    by (simp add: is_word_def is_alnum_def is_digit_def char_in_def)
  then have "is_word (hd s)" using ne s0 by (simp add: hd_conv_nth)
  then have b0: "at_boundary s 0" using ne by (intro at_boundary_start)
  have bn: "at_boundary s (length s)" using ne last_w by (rule at_boundary_end)
  have "\<exists>rest. rmatch (pat_regex SRC_HEX_DFLT_pattern) s (0, Map.empty)
          = (length s, [Suc 0 \<mapsto> (Suc (Suc 0), length s)]) # rest"
    using b0 bn len s0 s1 ne
    by (auto simp add: SRC_HEX_DFLT_pattern_def plus simp del: rmatch.simps(13))
  then obtain rest where
    "rmatch (pat_regex SRC_HEX_DFLT_pattern) s (0, Map.empty)
       = (length s, [Suc 0 \<mapsto> (Suc (Suc 0), length s)]) # rest" ..
  then have "re_match SRC_HEX_DFLT_pattern s
      = Some \<lparr>m_string = s, m_spans = [Suc 0 \<mapsto> (Suc (Suc 0), length s)], m_groups = 1\<rparr>"
    by (simp add: re_match_def SRC_HEX_DFLT_pattern_def)
  then show ?thesis using len by (simp add: match_group_def numeral_2_eq_2)
qed

lemma hex_match:
  "match_group (re_match SRC_HEX_DFLT_pattern (''0x'' @ nat_digits 16 m)) (Suc 0)
     = Inr (Some (nat_digits 16 m))"
proof -
  let ?ds = "nat_digits 16 m"
  let ?s = "''0x'' @ ?ds"
  let ?items = "[CRange (CHR ''0'') (CHR ''9''), CRange (CHR ''a'') (CHR ''f'')]"
  have ne: "?ds \<noteq> []" by (rule nat_digits_nonempty)
  have chars: "\<And>c. c \<in> set ?ds \<Longrightarrow> \<exists>d<16. c = digit_char d"
    by (rule nat_digits_chars) simp_all
  have cls: "\<forall>j. Suc (Suc 0) \<le> j \<and> j < length ?s \<longrightarrow> class_matches False ?items (?s ! j)"
  proof (intro allI impI)
    fix j assume j: "Suc (Suc 0) \<le> j \<and> j < length ?s"
    then have "?s ! j = ?ds ! (j - Suc (Suc 0))" by (simp add: nth_append nth_Cons')
    moreover have "j - Suc (Suc 0) < length ?ds" using j by auto
    then have "?ds ! (j - Suc (Suc 0)) \<in> set ?ds" by (rule nth_mem)
    ultimately obtain d where "d < 16" "?s ! j = digit_char d" using chars by metis
    then show "class_matches False ?items (?s ! j)" by (simp add: digit_char_hex_class)
  qed
  have "last ?s = last ?ds" using ne by simp
  moreover obtain d where "d < 16" "last ?ds = digit_char d"
    using chars [of "last ?ds"] ne by auto
  ultimately have last_w: "is_word (last ?s)" by (simp add: digit_char_is_word)
  have "match_group (re_match SRC_HEX_DFLT_pattern ?s) (Suc 0) = Inr (Some (drop 2 ?s))"
    using cls last_w
  proof (intro hex_match_general)
    show "Suc (Suc 0) < length ?s" using ne by (cases ?ds) simp_all
  qed simp_all
  then show ?thesis by simp
qed

lemma py_int_nat_digits:
  assumes "b = 10 \<or> b = 16"
  shows "py_int b (nat_digits b m) = Inr (int m)"
proof -
  let ?ds = "nat_digits b m"
  have b: "2 \<le> b" "b \<le> 16" using assms by auto
  have ne: "?ds \<noteq> []" by (rule nat_digits_nonempty)
  have chars: "\<And>c. c \<in> set ?ds \<Longrightarrow> \<exists>d<16. c = digit_char d"
    using b by (rule nat_digits_chars)
  obtain d0 where d0: "d0 < 16" "hd ?ds = digit_char d0"
    using chars [of "hd ?ds"] ne by auto
  obtain d1 where d1: "d1 < 16" "last ?ds = digit_char d1"
    using chars [of "last ?ds"] ne by auto
  have strip: "py_strip ?ds = ?ds"
    using ne d0 d1 by (intro py_strip_id) (simp_all add: digit_char_not_space)
  have "hd ?ds \<noteq> CHR ''-''" "hd ?ds \<noteq> CHR ''+''"
    using d0 by (simp_all add: digit_char_neq)
  then have sign: "strip_sign ?ds = (False, ?ds)"
    using ne by (cases ?ds) (auto simp: strip_sign_def)
  have pre: "strip_base_prefix b ?ds = ?ds"
  proof (cases ?ds)
    case Nil
    then show ?thesis by (simp add: strip_base_prefix_def)
  next
    case (Cons z r)
    show ?thesis
    proof (cases r)
      case Nil
      with Cons show ?thesis by (simp add: strip_base_prefix_def)
    next
      case (Cons x r')
      with \<open>?ds = z # r\<close> have "x \<in> set ?ds" by simp
      then obtain d where "d < 16" "x = digit_char d" using chars by auto
      then have "x \<noteq> CHR ''x''" "x \<noteq> CHR ''X''" by (simp_all add: digit_char_not_x)
      with Cons \<open>?ds = z # r\<close> assms show ?thesis by (auto simp: strip_base_prefix_def)
    qed
  qed
  show ?thesis
    using ne b by (simp add: py_int_def strip sign pre digits_val_nat_digits)
qed

lemma py_strip_idem: "py_strip (py_strip s) = py_strip s"
proof -
  let ?u = "dropWhile is_space s"
  let ?t = "rev (dropWhile is_space (rev ?u))"
  have t: "py_strip s = ?t" by (simp add: py_strip_def)
  have "?t @ rev (takeWhile is_space (rev ?u))
          = rev (takeWhile is_space (rev ?u) @ dropWhile is_space (rev ?u))"
    by (simp only: rev_append)
  also have "\<dots> = rev (rev ?u)" by (simp only: takeWhile_dropWhile_id)
  also have "\<dots> = ?u" by (simp only: rev_rev_ident)
  finally have u: "?u = ?t @ rev (takeWhile is_space (rev ?u))" by (rule sym)
  have front: "dropWhile is_space ?t = ?t"
  proof (cases "?t = []")
    case True
    show ?thesis unfolding True by simp
  next
    case False
    then have "hd ?t = hd ?u" using u by (metis hd_append2)
    moreover have "?u \<noteq> []" using False u by (metis Nil_is_append_conv)
    then have "\<not> is_space (hd ?u)" by (rule hd_dropWhile)
    ultimately show ?thesis using False by (cases ?t) auto
  qed
  have "py_strip ?t = rev (dropWhile is_space (rev (dropWhile is_space ?t)))"
    by (simp add: py_strip_def)
  also have "\<dots> = rev (dropWhile is_space (rev ?t))" by (simp only: front)
  also have "\<dots> = ?t" by simp
  finally show ?thesis by (simp only: t)
qed

lemma py_int_strip: "py_int b (py_strip s) = py_int b s"
  by (simp add: py_int_def py_strip_idem)

subsection \<open>DecToHex followed by HexToDec\<close>

text \<open>
  C4.  The claim: for every valid decimal integer string \<open>d\<close>, DecToHex and then
  HexToDec (default settings) give back the integer of \<open>d\<close> as a string.  On the code
  this fails for a negative integer: DecToHex writes \<^verbatim>\<open>-0x1a\<close> for \<^verbatim>\<open>-26\<close>, and the
  default hexadecimal pattern starts with \<^verbatim>\<open>\b\<close> and has no sign, so HexToDec does
  not match the text that starts with the minus sign and skips it.
\<close>

theorem C4_counterexample:
  "py_int 10 ''-26'' = Inr (- 26)
   \<and> shown (DecToHex_run plain_host (fresh_view ''-26'' [Region 0 3]))
       = Inr (''-0x1a'', [Region 0 5], [])
   \<and> shown (bindE (DecToHex_run plain_host (fresh_view ''-26'' [Region 0 3]))
               (HexToDec_run plain_host))
       = Inr (''-0x1a'', [Region 0 5], [''Skipped 1 invalid hexadecimal value(s)!''])"
  by code_simp

lemma hex_nomatch_nonword:
  assumes "s \<noteq> []" and "\<not> is_word (hd s)"
  shows "re_match SRC_HEX_DFLT_pattern s = None"
proof -
  have "\<not> at_boundary s 0"
    using assms by (simp add: at_boundary_def hd_conv_nth)
  then show ?thesis
    by (simp add: re_match_def SRC_HEX_DFLT_pattern_def)
qed

lemma py_hex_negative:
  assumes "n < 0"
  shows "py_hex n = CHR ''-'' # ''0x'' @ nat_digits 16 (nat (- n))"
    and "re_match SRC_HEX_DFLT_pattern (py_hex n) = None"
proof -
  show eq: "py_hex n = CHR ''-'' # ''0x'' @ nat_digits 16 (nat (- n))"
    using assms by (simp add: py_hex_def int_digits_def)
  have "\<not> is_word (CHR ''-'')"
    by (simp add: is_word_def is_alnum_def is_digit_def is_lower_def is_upper_def char_in_def)
  then show "re_match SRC_HEX_DFLT_pattern (py_hex n) = None"
    by (intro hex_nomatch_nonword) (simp_all add: eq)
qed

text \<open>
  C4 as amended: for every string \<open>d\<close> that \<^verbatim>\<open>int\<close> reads as an integer \<open>n\<close>, DecToHex
  with default settings replaces a selection with the text \<open>d\<close> by \<^verbatim>\<open>hex(n)\<close>.  When
  \<open>n\<close> is not negative, HexToDec with default settings replaces a selection with the
  text \<^verbatim>\<open>hex(n)\<close> by \<^verbatim>\<open>str(n)\<close>, and \<^verbatim>\<open>str(n)\<close> reads back as \<open>n\<close>.  When \<open>n\<close> is
  negative, \<^verbatim>\<open>hex(n)\<close> starts with a minus sign, the default hexadecimal pattern does
  not match it, and HexToDec leaves the text unchanged and reports one skipped value.
\<close>

theorem C4_DecToHex_HexToDec_roundtrip:
  assumes valid: "py_int 10 d = Inr n"
    and v: "settings v ''convert_dst_hex'' = None" "selection v = [sel]" "\<not> reg_empty sel"
      "view_substr v sel = d"
    and v': "settings v' ''convert_src_hex'' = None" "selection v' = [sel']" "\<not> reg_empty sel'"
      "view_substr v' sel' = py_hex n"
  shows "DecToHex_run h v = Inr (view_replace h v sel (py_hex n))
       \<and> (0 \<le> n \<longrightarrow>
            HexToDec_run h' v' = Inr (view_replace h' v' sel' (py_str_int n))
            \<and> py_int 10 (py_str_int n) = Inr n)
       \<and> (n < 0 \<longrightarrow>
            hd (py_hex n) = CHR ''-''
            \<and> re_match SRC_HEX_DFLT_pattern (py_hex n) = None
            \<and> HexToDec_run h' v'
                = Inr (status_message v' ''Skipped 1 invalid hexadecimal value(s)!''))"
proof (intro conjI impI)
  have "DecTo_step h (settings_get v ''convert_dst_hex'' CONVERT_DST_HEX_DFLT) v sel
          = Inr (view_replace h v sel (py_hex n))"
    using v(3)
  proof (rule DecTo_step_value)
    show "py_int 10 (py_strip (view_substr v sel)) = Inr n"
      using valid v(4) by (simp add: py_int_strip)
    show "format_setting (settings_get v ''convert_dst_hex'' CONVERT_DST_HEX_DFLT) n
            = Inr (py_hex n)"
      using v(1) by (rule format_setting_hex_unset)
  qed
  then show "DecToHex_run h v = Inr (view_replace h v sel (py_hex n))"
    using v(2) by (simp add: DecToHex_run_def for_each_sel_single report_none)
next
  assume nonneg: "0 \<le> n"
  have hex: "py_hex n = ''0x'' @ nat_digits 16 (nat n)"
    using nonneg by (simp add: py_hex_def int_digits_def)
  have "HexToDec_step h' SRC_HEX_DFLT_pattern v' sel'
          = Inr (view_replace h' v' sel' (py_str_int n))"
    using v'(3)
  proof (rule HexToDec_step_match)
    show "match_group (re_match SRC_HEX_DFLT_pattern (view_substr v' sel')) (Suc 0)
            = Inr (Some (nat_digits 16 (nat n)))"
      using v'(4) hex hex_match by simp
    show "py_int 16 (nat_digits 16 (nat n)) = Inr n"
      using nonneg by (simp add: py_int_nat_digits)
  qed
  then show "HexToDec_run h' v' = Inr (view_replace h' v' sel' (py_str_int n))"
    using v'(1,2)
    by (simp add: HexToDec_run_def load_src_hex bindE_def for_each_sel_single report_none)
next
  assume nonneg: "0 \<le> n"
  then show "py_int 10 (py_str_int n) = Inr n"
    by (simp add: py_str_int_def int_digits_def py_int_nat_digits)
next
  assume neg: "n < 0"
  then show "hd (py_hex n) = CHR ''-''" by (simp add: py_hex_negative(1))
next
  assume neg: "n < 0"
  then show "re_match SRC_HEX_DFLT_pattern (py_hex n) = None" by (rule py_hex_negative(2))
next
  assume neg: "n < 0"
  have "HexToDec_step h' SRC_HEX_DFLT_pattern v' sel' = Inl AttributeError"
    using v'(3)
  proof (rule HexToDec_step_nomatch)
    show "re_match SRC_HEX_DFLT_pattern (view_substr v' sel') = None"
      using v'(4) py_hex_negative(2) [OF neg] by simp
  qed
  then show "HexToDec_run h' v'
      = Inr (status_message v' ''Skipped 1 invalid hexadecimal value(s)!'')"
    using v'(1,2)
    by (simp add: HexToDec_run_def load_src_hex bindE_def for_each_sel_single report_one)
qed

theorem C4_DecToHex_HexToDec_roundtrip_witness:
  "shown (bindE (DecToHex_run plain_host (fresh_view ''026'' [Region 0 3]))
            (HexToDec_run plain_host))
     = Inr (''26'', [Region 0 2], [])"
proof -
  let ?v = "fresh_view ''026'' [Region 0 3]"
  let ?v' = "view_replace plain_host ?v (Region 0 3) (py_hex 26)"
  have valid: "py_int 10 ''026'' = Inr 26" by code_simp
  have sel': "selection ?v' = [Region 0 4]" by code_simp
  have sub': "view_substr ?v' (Region 0 4) = py_hex 26" by code_simp
  have set': "settings ?v' ''convert_src_hex'' = None"
    by (simp add: view_replace_def fresh_view_def)
  have both: "DecToHex_run plain_host ?v = Inr ?v'
      \<and> HexToDec_run plain_host ?v' = Inr (view_replace plain_host ?v' (Region 0 4) (py_str_int 26))"
    using C4_DecToHex_HexToDec_roundtrip [OF valid, of ?v "Region 0 3" ?v' "Region 0 4"
        plain_host plain_host] sel' sub' set'
    by (simp add: fresh_view_def view_substr_def reg_empty_def reg_begin_def reg_end_def)
  have "shown (Inr (view_replace plain_host ?v' (Region 0 4) (py_str_int 26)))
      = Inr (''26'', [Region 0 2], [])"
    by code_simp
  with both show ?thesis by (simp add: bindE_def)
qed

subsection \<open>Cursor inside a quoted token\<close>

lemma compile_quoted_bin: "re_compile (quoted ''B([01]+)'') = Inr quoted_bin_pattern"
  by code_simp

lemma quoted_bin_source: "pat_source quoted_bin_pattern = squote # ''B([01]+)'' @ [squote]"
  by code_simp

lemma quoted_bin_group:
  "match_group (re_match quoted_bin_pattern (quoted ''B101110'')) (Suc 0) = Inr (Some ''101110'')"
  by code_simp

lemma int_2_101110: "py_int 2 ''101110'' = Inr 46"
  by code_simp

lemma format_quoted_hex: "py_format (quoted ''B{0:X}'') 46 = Inr (quoted ''B2E'')"
  by code_simp

text \<open>
  C8.  An empty selection is expanded to the word around it (the word is the one the
  editor reports), and when the first character of the source pattern is a single
  quote the region is widened by one character on each side.  With the source
  pattern \<^verbatim>\<open>'B([01]+)'\<close> and the destination \<^verbatim>\<open>'B{0:X}'\<close>, BinToHex on a cursor inside
  the quoted token \<^verbatim>\<open>'B101110'\<close> replaces the token and its quotes with \<^verbatim>\<open>'B2E'\<close>.
\<close>

theorem C8_quoted_token:
  assumes "reg_empty sel"
  shows "(\<forall>c cs. pat_source r = c # cs \<longrightarrow>
            expand_to_word h r v sel
              = Inr (if c = squote
                     then Region (reg_a (h_word h (buffer v) sel) - 1)
                            (reg_b (h_word h (buffer v) sel) + 1)
                     else h_word h (buffer v) sel))
       \<and> (settings v ''convert_src_bin'' = Some (SString (quoted ''B([01]+)''))
          \<and> settings v ''convert_dst_hex'' = Some (SString (quoted ''B{0:X}''))
          \<and> selection v = [sel]
          \<and> view_substr v (Region (reg_a (h_word h (buffer v) sel) - 1)
                             (reg_b (h_word h (buffer v) sel) + 1))
              = quoted ''B101110''
          \<longrightarrow> BinToHex_run h v
                = Inr (view_replace h v
                         (Region (reg_a (h_word h (buffer v) sel) - 1)
                            (reg_b (h_word h (buffer v) sel) + 1))
                         (quoted ''B2E'')))"
proof (intro conjI allI impI)
  fix c cs assume "pat_source r = c # cs"
  with assms show "expand_to_word h r v sel
      = Inr (if c = squote
             then Region (reg_a (h_word h (buffer v) sel) - 1) (reg_b (h_word h (buffer v) sel) + 1)
             else h_word h (buffer v) sel)"
    by (simp add: expand_to_word_def Let_def)
next
  let ?w = "Region (reg_a (h_word h (buffer v) sel) - 1) (reg_b (h_word h (buffer v) sel) + 1)"
  assume a: "settings v ''convert_src_bin'' = Some (SString (quoted ''B([01]+)''))
          \<and> settings v ''convert_dst_hex'' = Some (SString (quoted ''B{0:X}''))
          \<and> selection v = [sel]
          \<and> view_substr v ?w = quoted ''B101110''"
  have load: "load_pattern v ''convert_src_bin'' CONVERT_SRC_BIN_DFLT = Inr quoted_bin_pattern"
    using a by (simp add: load_pattern_def settings_get_def compile_quoted_bin)
  have dst: "settings_get v ''convert_dst_hex'' CONVERT_DST_HEX_DFLT = SString (quoted ''B{0:X}'')"
    using a by (simp add: settings_get_def)
  have exp: "expand_to_word h quoted_bin_pattern v sel = Inr ?w"
    using assms by (simp add: expand_to_word_def Let_def quoted_bin_source)
  have step: "BinToHex_step h (SString (quoted ''B{0:X}'')) quoted_bin_pattern v sel
      = Inr (view_replace h v ?w (quoted ''B2E''))"
    using a
    by (simp add: BinToHex_step_def exp bindE_def quoted_bin_group py_int_of_def int_2_101110
          format_setting_def format_quoted_hex)
  show "BinToHex_run h v = Inr (view_replace h v ?w (quoted ''B2E''))"
    using a by (simp add: BinToHex_run_def load dst bindE_def for_each_sel_single step report_none)
qed

theorem C8_quoted_token_witness:
  "shown (BinToHex_run plain_host
      ((fresh_view (''x = '' @ quoted ''B101110'' @ '' + 1'') [Region 8 8])
         \<lparr>settings := [''convert_src_bin'' \<mapsto> SString (quoted ''B([01]+)''),
                       ''convert_dst_hex'' \<mapsto> SString (quoted ''B{0:X}'')]\<rparr>))
     = Inr (''x = '' @ quoted ''B2E'' @ '' + 1'', [Region 9 9], [])"
proof -
  let ?v = "(fresh_view (''x = '' @ quoted ''B101110'' @ '' + 1'') [Region 8 8])
         \<lparr>settings := [''convert_src_bin'' \<mapsto> SString (quoted ''B([01]+)''),
                       ''convert_dst_hex'' \<mapsto> SString (quoted ''B{0:X}'')]\<rparr>"
  have w: "h_word plain_host (buffer ?v) (Region 8 8) = Region 5 12" by code_simp
  have sub: "view_substr ?v (Region 4 13) = quoted ''B101110''" by code_simp
  have "BinToHex_run plain_host ?v
      = Inr (view_replace plain_host ?v (Region 4 13) (quoted ''B2E''))"
    using C8_quoted_token [of "Region 8 8" undefined plain_host ?v] w sub
    by (simp add: reg_empty_def fresh_view_def)
  moreover have "shown (Inr (view_replace plain_host ?v (Region 4 13) (quoted ''B2E'')))
      = Inr (''x = '' @ quoted ''B2E'' @ '' + 1'', [Region 9 9], [])"
    by code_simp
  ultimately show ?thesis by simp
qed

subsection \<open>Rounding to the nearest float\<close>

lemma round_half_even_error: "\<bar>of_int (round_half_even x) - x\<bar> \<le> 1 / 2"
proof -
  have a: "of_int \<lfloor>x\<rfloor> \<le> x" and b: "x < of_int \<lfloor>x\<rfloor> + 1" by linarith+
  consider (lo) "x - of_int \<lfloor>x\<rfloor> < 1 / 2" | (hi) "1 / 2 < x - of_int \<lfloor>x\<rfloor>"
    | (tie) "x - of_int \<lfloor>x\<rfloor> = 1 / 2" by linarith
  then show ?thesis
  proof cases
    case lo
    then have "round_half_even x = \<lfloor>x\<rfloor>" by (simp add: round_half_even_def Let_def)
    with a lo show ?thesis by simp
  next
    case hi
    then have "round_half_even x = \<lfloor>x\<rfloor> + 1" by (simp add: round_half_even_def Let_def)
    with b hi show ?thesis by simp
  next
    case tie
    then have "round_half_even x = \<lfloor>x\<rfloor> \<or> round_half_even x = \<lfloor>x\<rfloor> + 1"
      by (simp add: round_half_even_def Let_def)
    with tie show ?thesis by auto
  qed
qed

lemma round_half_even_nonneg: "0 \<le> x \<Longrightarrow> 0 \<le> round_half_even x"
  by (auto simp: round_half_even_def Let_def)

lemma digit_count_unfold:
  "digit_count b x = (if 0 < x \<and> 1 < b then digit_count b (x div b) + 1 else 0)"
  by (rule digit_count.simps)

lemma digit_count_bounds:
  "0 < x \<Longrightarrow>
   0 < digit_count 2 x \<and> 2 ^ nat (digit_count 2 x - 1) \<le> x \<and> x < 2 ^ nat (digit_count 2 x)"
proof (induction "nat x" arbitrary: x rule: less_induct)
  case less
  let ?y = "x div 2"
  have dc: "digit_count 2 x = digit_count 2 ?y + 1"
    using less.prems by (subst digit_count_unfold) simp
  show ?case
  proof (cases "?y = 0")
    case True
    then have "x = 1" using less.prems by linarith
    moreover have "digit_count 2 0 = 0" by (subst digit_count_unfold) simp
    ultimately show ?thesis using dc True by simp
  next
    case False
    then have pos: "0 < ?y" using less.prems by linarith
    have "nat ?y < nat x" using less.prems pos by linarith
    from less.hyps [OF this pos]
    have ih: "0 < digit_count 2 ?y" "2 ^ nat (digit_count 2 ?y - 1) \<le> ?y"
      "?y < 2 ^ nat (digit_count 2 ?y)" by simp_all
    have n: "nat (digit_count 2 ?y) = Suc (nat (digit_count 2 ?y - 1))"
      using ih(1) by linarith
    have lo: "(2::int) ^ nat (digit_count 2 ?y) \<le> x"
    proof -
      have "(2::int) ^ nat (digit_count 2 ?y) = 2 * 2 ^ nat (digit_count 2 ?y - 1)"
        by (simp add: n)
      also have "\<dots> \<le> 2 * ?y" using ih(2) by simp
      also have "\<dots> \<le> x" by presburger
      finally show ?thesis .
    qed
    have hi: "x < 2 ^ nat (digit_count 2 ?y + 1)"
    proof -
      have "x < 2 * (?y + 1)" by presburger
      also have "\<dots> \<le> 2 * 2 ^ nat (digit_count 2 ?y)" using ih(3) by simp
      also have "\<dots> = 2 ^ nat (digit_count 2 ?y + 1)"
        using ih(1) by (simp add: nat_add_distrib)
      finally show ?thesis .
    qed
    show ?thesis using ih(1) lo hi by (simp add: dc)
  qed
qed

lemma quotient_of_pos:
  assumes "0 < q" and "quotient_of q = (n, d)"
  shows "0 < n" and "0 < d" and "q = of_int n / of_int d"
proof -
  show d: "0 < d" using assms(2) by (rule quotient_of_denom_pos)
  show eq: "q = of_int n / of_int d" using assms(2) by (rule quotient_of_div)
  show "0 < n"
  proof (rule ccontr)
    assume "\<not> 0 < n"
    then have "of_int n / of_int d \<le> (0::rat)" using d by (simp add: divide_nonpos_pos)
    with assms(1) eq show False by simp
  qed
qed

lemma floor_log2_lower:
  assumes "0 < q"
  shows "2 powi (floor_log 2 q) \<le> q"
proof -
  obtain n d where qd: "quotient_of q = (n, d)" by (cases "quotient_of q")
  from quotient_of_pos [OF assms qd] have n: "0 < n" and d: "0 < d"
    and q: "q = of_int n / of_int d" by simp_all
  let ?k = "digit_count 2 n - digit_count 2 d"
  from digit_count_bounds [OF n] have bn: "0 < digit_count 2 n"
    "2 ^ nat (digit_count 2 n - 1) \<le> n" by simp_all
  from digit_count_bounds [OF d] have bd: "0 < digit_count 2 d"
    "d < 2 ^ nat (digit_count 2 d)" by simp_all
  have low: "(2::rat) powi (?k - 1) \<le> q"
  proof -
    have "(2::rat) powi (?k - 1)
            = 2 powi (digit_count 2 n - 1) / 2 powi (digit_count 2 d)"
      by (simp add: power_int_diff)
    also have "\<dots> = 2 ^ nat (digit_count 2 n - 1) / 2 ^ nat (digit_count 2 d)"
      using bn(1) bd(1) by (simp add: power_int_def)
    also have "\<dots> \<le> of_int n / 2 ^ nat (digit_count 2 d)"
    proof (rule divide_right_mono)
      have "(of_int (2 ^ nat (digit_count 2 n - 1)) :: rat) \<le> of_int n"
        using bn(2) by (simp only: of_int_le_iff)
      then show "(2::rat) ^ nat (digit_count 2 n - 1) \<le> of_int n" by simp
    qed simp
    also have "\<dots> \<le> of_int n / of_int d"
    proof (rule divide_left_mono)
      have "(of_int d :: rat) \<le> of_int (2 ^ nat (digit_count 2 d))"
        using bd(2) by (simp only: of_int_le_iff)
      then show "(of_int d :: rat) \<le> 2 ^ nat (digit_count 2 d)" by simp
      show "0 \<le> (of_int n :: rat)" using n by simp
      show "0 < (2::rat) ^ nat (digit_count 2 d) * of_int d" using d by simp
    qed
    finally show ?thesis using q by simp
  qed
  show ?thesis
    using low by (simp add: floor_log_def qd Let_def)
qed

text \<open>The error of the rounding: half a unit in the last place.\<close>

lemma round_pos_error:
  assumes "0 < q"
  shows "\<bar>round_pos q - q\<bar> \<le> max (q / 2 ^ 53) (1 / 2 ^ 1075)"
proof -
  let ?e = "floor_log 2 q"
  let ?p = "max ?e (- 1022) - 52"
  have pp: "(0::rat) < 2 powi ?p" by simp
  have "\<bar>round_pos q - q\<bar>
          = \<bar>of_int (round_half_even (q / (2 powi ?p))) - q / (2 powi ?p)\<bar> * (2 powi ?p)"
  proof -
    have "round_pos q - q
            = (of_int (round_half_even (q / (2 powi ?p))) - q / (2 powi ?p)) * (2 powi ?p)"
      using pp by (simp add: round_pos_def Let_def field_simps)
    then show ?thesis using pp by (simp add: abs_mult)
  qed
  also have "\<dots> \<le> (1 / 2) * (2 powi ?p)"
    using round_half_even_error pp by (intro mult_right_mono) simp_all
  also have "\<dots> = 2 powi (?p - 1)"
    by (simp add: power_int_diff)
  also have "\<dots> \<le> max (q / 2 ^ 53) (1 / 2 ^ 1075)"
  proof (cases "- 1022 \<le> ?e")
    case True
    then have "?p - 1 = ?e - 53" by simp
    then have "(2::rat) powi (?p - 1) = 2 powi ?e / 2 ^ 53"
      by (simp add: power_int_diff)
    also have "\<dots> \<le> q / 2 ^ 53"
      using floor_log2_lower [OF assms] by (intro divide_right_mono) simp_all
    finally show ?thesis by simp
  next
    case False
    then have "?p - 1 = - 1075" by simp
    then have "(2::rat) powi (?p - 1) = 1 / 2 ^ 1075"
      by (simp add: power_int_minus_divide)
    then show ?thesis by simp
  qed
  finally show ?thesis .
qed

lemma round_pos_nonneg: "0 < q \<Longrightarrow> 0 \<le> round_pos q"
  by (simp add: round_pos_def Let_def round_half_even_nonneg)

subsection \<open>Evaluating the rounding\<close>

lemma round_half_even_int: "round_half_even (of_int k) = k"
  by (simp add: round_half_even_def Let_def)

text \<open>An integer below \<open>2 ^ 53\<close> is a float.\<close>

lemma float_of_rat_int:
  assumes "0 < N" and "N < 2 ^ 53"
  shows "float_of_rat (of_int N) = Finite (of_int N)"
proof -
  let ?q = "of_int N :: rat"
  let ?e = "floor_log 2 ?q"
  let ?p = "max ?e (- 1022) - 52"
  have q0: "0 < ?q" using assms(1) by simp
  have low: "2 powi ?e \<le> ?q" using q0 by (rule floor_log2_lower)
  have e: "?e < 53"
  proof (rule ccontr)
    assume "\<not> ?e < 53"
    then have "(2::rat) powi 53 \<le> 2 powi ?e" by (intro power_int_increasing) simp_all
    with low have "(2::rat) ^ 53 \<le> of_int N" by simp
    moreover have "(of_int N :: rat) < of_int (2 ^ 53)" using assms(2) by (simp only: of_int_less_iff)
    ultimately show False by simp
  qed
  then have p: "?p \<le> 0" by simp
  then have pw: "(2::rat) powi ?p = 1 / 2 ^ nat (- ?p)"
    by (simp add: power_int_def power_inverse inverse_eq_divide power_one_over)
  have "?q / (2 powi ?p) = of_int (N * 2 ^ nat (- ?p))" by (simp add: pw)
  then have "round_half_even (?q / (2 powi ?p)) = N * 2 ^ nat (- ?p)"
    by (simp only: round_half_even_int)
  then have r: "round_pos ?q = ?q"
    by (simp add: round_pos_def Let_def pw)
  have "?q < 2 ^ 1024"
  proof -
    have "(of_int N :: rat) < of_int (2 ^ 53)" using assms(2) by (simp only: of_int_less_iff)
    moreover have "(of_int (2 ^ 53) :: rat) < 2 ^ 1024" by simp
    ultimately show ?thesis by linarith
  qed
  with r q0 show ?thesis by (simp add: float_of_rat_def Let_def)
qed




lemma float_of_1420: "float_of_rat 1420 = Finite 1420"
  using float_of_rat_int [of 1420] by simp


























lemma is_float_1420: "is_float (Finite 1420)"
  by (simp add: is_float_def float_of_1420)

lemma zero_float: "py_float ''0'' = Inr (Finite 0)"
  by (simp add: py_float_def py_strip_def strip_sign_def is_space_def char_in_def is_digit_def
        to_lower_def is_upper_def Let_def digit_val_def signed_zero_def)

subsection \<open>One round of each loop of DecToExp\<close>

lemma float_of_rat_pos:
  "0 < q \<Longrightarrow> round_pos q < 2 ^ 1024 \<Longrightarrow> float_of_rat q = Finite (round_pos q)"
  by (simp add: float_of_rat_def Let_def)

lemma is_float_range:
  assumes "is_float (Finite q)" and "0 < q"
  shows "1 / 2 ^ 1074 \<le> q \<and> q < 2 ^ 1024"
proof -
  let ?p = "max (floor_log 2 q) (- 1022) - 52"
  let ?m = "round_half_even (q / (2 powi ?p))"
  from assms have fixed: "round_pos q = q" and up: "q < 2 ^ 1024"
    by (auto simp: is_float_def float_of_rat_def Let_def split: if_splits)
  have q: "q = of_int ?m * (2 powi ?p)"
    using fixed by (simp add: round_pos_def Let_def)
  have pp: "(0::rat) < 2 powi ?p" by simp
  have "0 < ?m"
  proof (rule ccontr)
    assume "\<not> 0 < ?m"
    then have "(of_int ?m :: rat) \<le> 0" by simp
    then have "of_int ?m * (2 powi ?p) \<le> (0::rat)"
      using pp by (simp add: mult_le_0_iff)
    with q assms(2) show False by simp
  qed
  then have "(1::rat) \<le> of_int ?m" by linarith
  then have "1 * (2 powi ?p) \<le> of_int ?m * ((2::rat) powi ?p)"
    using pp by (intro mult_right_mono) simp_all
  then have "(2::rat) powi ?p \<le> q" using q by simp
  moreover have "(2::rat) powi (- 1074) \<le> 2 powi ?p"
    by (intro power_int_increasing) simp_all
  moreover have "(2::rat) powi (- 1074) = 1 / 2 ^ 1074"
    by (simp add: power_int_minus_divide)
  ultimately show ?thesis using up by simp
qed

lemma divide_round:
  assumes "10 < q" and "q < 2 ^ 1024"
  shows "\<exists>r. float_truediv (Finite q) (Finite 10) = Inr (Finite r) \<and> 1 / 2 \<le> r \<and> r \<le> q / 2"
proof -
  let ?x = "q / 10"
  have x: "1 < ?x" using assms(1) by simp
  have "\<bar>round_pos ?x - ?x\<bar> \<le> max (?x / 2 ^ 53) (1 / 2 ^ 1075)"
    using x by (intro round_pos_error) simp
  also have "\<dots> \<le> ?x / 2"
  proof -
    have "?x / 2 ^ 53 \<le> ?x / 2" using x by (intro divide_left_mono) simp_all
    moreover have "(1::rat) / 2 ^ 1075 \<le> 1 / 2" by simp
    ultimately show ?thesis using x by simp
  qed
  finally have err: "\<bar>round_pos ?x - ?x\<bar> \<le> ?x / 2" .
  have lo: "1 / 2 \<le> round_pos ?x"
    using err x by linarith
  have hi: "round_pos ?x \<le> q / 2"
    using err x by linarith
  have "round_pos ?x < 2 ^ 1024" using hi assms by simp
  then have "float_of_rat ?x = Finite (round_pos ?x)"
    using x by (intro float_of_rat_pos) simp_all
  then have "float_truediv (Finite q) (Finite 10) = Inr (Finite (round_pos ?x))"
    using assms(1)
    by (simp add: float_truediv_def is_zero_def is_nan_def is_inf_def float_val_def)
  with lo hi show ?thesis by blast
qed

lemma multiply_round:
  assumes "1 / 2 ^ 1074 \<le> q" and "q < 1"
  shows "\<exists>r. float_mul (Finite q) (Finite 10) = Finite r \<and> 2 * q \<le> r \<and> r < 2 ^ 1024"
proof -
  let ?x = "q * 10"
  have q0: "0 < q"
  proof -
    have "(0::rat) < 1 / 2 ^ 1074" by simp
    with assms(1) show ?thesis by linarith
  qed
  then have x: "0 < ?x" by simp
  have "\<bar>round_pos ?x - ?x\<bar> \<le> max (?x / 2 ^ 53) (1 / 2 ^ 1075)"
    using x by (rule round_pos_error)
  also have "\<dots> \<le> 8 * q"
  proof -
    have "?x / 2 ^ 53 \<le> ?x / 2" using x by (intro divide_left_mono) simp_all
    then have "?x / 2 ^ 53 \<le> 8 * q" using q0 by simp
    moreover have "(1::rat) / 2 ^ 1075 \<le> 1 / 2 ^ 1074" by simp
    then have "(1::rat) / 2 ^ 1075 \<le> 8 * q" using assms(1) q0 by linarith
    ultimately show ?thesis by simp
  qed
  finally have err: "\<bar>round_pos ?x - ?x\<bar> \<le> 8 * q" .
  have lo: "2 * q \<le> round_pos ?x"
    using err by linarith
  have hi: "round_pos ?x \<le> 18 * q"
    using err by linarith
  have "round_pos ?x < 18" using hi assms(2) by linarith
  moreover have "(18::rat) < 2 ^ 1024" by simp
  ultimately have up: "round_pos ?x < 2 ^ 1024" by linarith
  then have "float_of_rat ?x = Finite (round_pos ?x)"
    using x by (intro float_of_rat_pos)
  then have "float_mul (Finite q) (Finite 10) = Finite (round_pos ?x)"
    using q0
    by (simp add: float_mul_def is_zero_def is_nan_def is_inf_def float_val_def Let_def)
  with lo up show ?thesis by blast
qed

subsection \<open>The loops end on a positive finite float\<close>

lemma divide_loop_ends:
  "1 / 2 ^ 1074 \<le> q \<Longrightarrow> q < 2 ^ 1024 \<Longrightarrow> q < 2 ^ n \<Longrightarrow>
   \<exists>b ex'. divide_loop (Finite q) ex = Some (Inr (Finite b, ex'))
            \<and> 1 / 2 ^ 1074 \<le> b \<and> b < 2 ^ 1024"
proof (induction n arbitrary: q ex)
  case 0
  then have "\<not> float_gt (Finite q) (Finite 10)"
    by (simp add: float_gt_def float_lt_def is_nan_def float_val_def)
  then have "divide_loop (Finite q) ex = Some (Inr (Finite q, ex))"
    by (subst divide_loop.simps) simp
  with 0 show ?case by blast
next
  case (Suc n)
  show ?case
  proof (cases "10 < q")
    case False
    then have "\<not> float_gt (Finite q) (Finite 10)"
      by (simp add: float_gt_def float_lt_def is_nan_def float_val_def)
    then have "divide_loop (Finite q) ex = Some (Inr (Finite q, ex))"
      by (subst divide_loop.simps) simp
    with Suc.prems show ?thesis by blast
  next
    case True
    from divide_round [OF True Suc.prems(2)] obtain r where
      r: "float_truediv (Finite q) (Finite 10) = Inr (Finite r)" "1 / 2 \<le> r" "r \<le> q / 2"
      by blast
    have gt: "float_gt (Finite q) (Finite 10)"
      using True by (simp add: float_gt_def float_lt_def is_nan_def float_val_def)
    have step: "divide_loop (Finite q) ex = divide_loop (Finite r) (ex + 1)"
      using gt r(1) by (subst divide_loop.simps) simp
    have "(1::rat) / 2 ^ 1074 \<le> 1 / 2" by simp
    with r(2) have a: "1 / 2 ^ 1074 \<le> r" by linarith
    have b: "r < 2 ^ 1024" using r(3) Suc.prems(2) True by linarith
    have c: "r < 2 ^ n" using r(3) Suc.prems(3) by simp
    from Suc.IH [OF a b c, of "ex + 1"] show ?thesis by (simp add: step)
  qed
qed

lemma multiply_loop_ends:
  "1 / 2 ^ 1074 \<le> q \<Longrightarrow> q < 2 ^ 1024 \<Longrightarrow> 1 \<le> q * 2 ^ n \<Longrightarrow>
   \<exists>b ex'. multiply_loop (Finite q) ex = Some (Inr (Finite b, ex'))"
proof (induction n arbitrary: q ex)
  case 0
  then have "\<not> float_lt (Finite q) (Finite 1)"
    by (simp add: float_lt_def is_nan_def float_val_def)
  then have "multiply_loop (Finite q) ex = Some (Inr (Finite q, ex))"
    by (subst multiply_loop.simps) simp
  then show ?case by blast
next
  case (Suc n)
  show ?case
  proof (cases "q < 1")
    case False
    then have "\<not> float_lt (Finite q) (Finite 1)"
      by (simp add: float_lt_def is_nan_def float_val_def)
    then have "multiply_loop (Finite q) ex = Some (Inr (Finite q, ex))"
      by (subst multiply_loop.simps) simp
    then show ?thesis by blast
  next
    case True
    from multiply_round [OF Suc.prems(1) True] obtain r where
      r: "float_mul (Finite q) (Finite 10) = Finite r" "2 * q \<le> r" "r < 2 ^ 1024"
      by blast
    have lt: "float_lt (Finite q) (Finite 1)"
      using True by (simp add: float_lt_def is_nan_def float_val_def)
    have step: "multiply_loop (Finite q) ex = multiply_loop (Finite r) (ex - 1)"
      using lt r(1) by (subst multiply_loop.simps) simp
    have q0: "0 < q"
    proof -
      have "(0::rat) < 1 / 2 ^ 1074" by simp
      with Suc.prems(1) show ?thesis by linarith
    qed
    have a: "1 / 2 ^ 1074 \<le> r" using r(2) Suc.prems(1) q0 by linarith
    have "1 \<le> (2 * q) * 2 ^ n" using Suc.prems(3) by (simp add: mult.assoc mult.left_commute)
    also have "\<dots> \<le> r * 2 ^ n" using r(2) by (intro mult_right_mono) simp_all
    finally have c: "1 \<le> r * 2 ^ n" .
    from Suc.IH [OF a r(3) c, of "ex - 1"] show ?thesis by (simp add: step)
  qed
qed

lemma normalize_ends:
  assumes "is_float (Finite q)" and "0 < q"
  shows "\<exists>b ex. normalize (Finite q) = Some (Inr (Finite b, ex))"
proof -
  from is_float_range [OF assms] have lo: "1 / 2 ^ 1074 \<le> q" and up: "q < 2 ^ 1024"
    by simp_all
  from divide_loop_ends [OF lo up up, of 0] obtain b ex where
    d: "divide_loop (Finite q) 0 = Some (Inr (Finite b, ex))"
    and b: "1 / 2 ^ 1074 \<le> b" "b < 2 ^ 1024" by blast
  have "(1::rat) \<le> (1 / 2 ^ 1074) * 2 ^ 1074" by simp
  also have "\<dots> \<le> b * 2 ^ 1074" using b(1) by (intro mult_right_mono) simp_all
  finally have "1 \<le> b * 2 ^ 1074" .
  from multiply_loop_ends [OF b this, of ex] obtain b' ex' where
    "multiply_loop (Finite b) ex = Some (Inr (Finite b', ex'))" by blast
  with d show ?thesis by (simp add: normalize_def)
qed

subsection \<open>The loops run forever on zero, on a negative number and on an infinity\<close>

lemma float_of_rat_neg:
  "q < 0 \<Longrightarrow> float_of_rat q = NegInf \<or> float_of_rat q = NegZero
     \<or> (\<exists>r. float_of_rat q = Finite r \<and> r < 0)"
proof -
  assume q: "q < 0"
  then have "0 \<le> round_pos (- q)" by (intro round_pos_nonneg) simp
  with q show ?thesis
    by (auto simp: float_of_rat_def Let_def)
qed

lemma multiply_stays:
  assumes "is_zero x \<or> float_lt x (Finite 0)"
  shows "float_lt x (Finite 1)"
    and "is_zero (float_mul x (Finite 10)) \<or> float_lt (float_mul x (Finite 10)) (Finite 0)"
proof -
  show "float_lt x (Finite 1)"
    using assms
    by (cases x) (auto simp: is_zero_def float_lt_def is_nan_def float_val_def split: if_splits)
  show "is_zero (float_mul x (Finite 10)) \<or> float_lt (float_mul x (Finite 10)) (Finite 0)"
  proof (cases x)
    case (Finite q)
    show ?thesis
    proof (cases "q = 0")
      case True
      with Finite show ?thesis
        by (simp add: float_mul_def is_zero_def is_nan_def is_inf_def sign_bit_def signed_zero_def)
    next
      case False
      with Finite assms have neg: "q < 0"
        by (auto simp: is_zero_def float_lt_def is_nan_def float_val_def split: if_splits)
      then have "q * 10 < 0" by simp
      from float_of_rat_neg [OF this] neg Finite show ?thesis
        by (auto simp: float_mul_def is_zero_def is_nan_def is_inf_def float_val_def float_lt_def
            Let_def)
    qed
  next
    case NegZero
    then show ?thesis
      by (simp add: float_mul_def is_zero_def is_nan_def is_inf_def sign_bit_def signed_zero_def)
  next
    case PosInf
    with assms show ?thesis
      by (simp add: is_zero_def float_lt_def is_nan_def)
  next
    case NegInf
    then show ?thesis
      by (simp add: float_mul_def is_zero_def is_nan_def is_inf_def sign_bit_def signed_inf_def
          float_lt_def)
  next
    case NaN
    with assms show ?thesis
      by (simp add: is_zero_def float_lt_def is_nan_def)
  qed
qed

lemma multiply_loop_some_positive:
  assumes "multiply_loop x ex = Some y"
  shows "\<not> (is_zero x \<or> float_lt x (Finite 0))"
proof (rule multiply_loop.raw_induct
    [where P = "\<lambda>b e r. \<not> (is_zero b \<or> float_lt b (Finite 0))", OF _ assms])
  fix loop :: "pyfloat \<Rightarrow> int \<Rightarrow> (error + pyfloat \<times> int) option"
  fix base :: pyfloat and e :: int and r :: "error + pyfloat \<times> int"
  assume ih: "\<And>b e r. loop b e = Some r \<Longrightarrow> \<not> (is_zero b \<or> float_lt b (Finite 0))"
  assume body: "(if float_lt base (Finite 1) then loop (float_mul base (Finite 10)) (e - 1)
                 else Some (Inr (base, e))) = Some r"
  show "\<not> (is_zero base \<or> float_lt base (Finite 0))"
  proof
    assume stuck: "is_zero base \<or> float_lt base (Finite 0)"
    from multiply_stays(1) [OF stuck] body
    have "loop (float_mul base (Finite 10)) (e - 1) = Some r" by simp
    from ih [OF this] multiply_stays(2) [OF stuck] show False by blast
  qed
qed

lemma multiply_loop_forever:
  "is_zero x \<or> float_lt x (Finite 0) \<Longrightarrow> multiply_loop x ex = None"
  using multiply_loop_some_positive [of x ex] by (cases "multiply_loop x ex") auto

lemma divide_loop_some_not_inf:
  assumes "divide_loop x ex = Some y"
  shows "x \<noteq> PosInf"
proof (rule divide_loop.raw_induct [where P = "\<lambda>b e r. b \<noteq> PosInf", OF _ assms])
  fix loop :: "pyfloat \<Rightarrow> int \<Rightarrow> (error + pyfloat \<times> int) option"
  fix base :: pyfloat and e :: int and r :: "error + pyfloat \<times> int"
  assume ih: "\<And>b e r. loop b e = Some r \<Longrightarrow> b \<noteq> PosInf"
  assume body: "(if float_gt base (Finite 10)
                 then case float_truediv base (Finite 10) of
                        Inl err \<Rightarrow> Some (Inl err)
                      | Inr b \<Rightarrow> loop b (e + 1)
                 else Some (Inr (base, e))) = Some r"
  show "base \<noteq> PosInf"
  proof
    assume inf: "base = PosInf"
    then have "float_gt base (Finite 10)"
      by (simp add: float_gt_def float_lt_def is_nan_def)
    moreover have "float_truediv base (Finite 10) = Inr PosInf"
      using inf
      by (simp add: float_truediv_def is_zero_def is_nan_def is_inf_def sign_bit_def
          signed_inf_def)
    ultimately have "loop PosInf (e + 1) = Some r" using body by simp
    from ih [OF this] show False by simp
  qed
qed

lemma divide_loop_forever: "divide_loop PosInf ex = None"
  using divide_loop_some_not_inf [of PosInf ex] by (cases "divide_loop PosInf ex") auto

lemma divide_loop_skips:
  "\<not> float_gt x (Finite 10) \<Longrightarrow> divide_loop x ex = Some (Inr (x, ex))"
  by (subst divide_loop.simps) simp

lemma normalize_forever:
  assumes "is_zero x \<or> float_lt x (Finite 0) \<or> x = PosInf"
  shows "normalize x = None"
proof (cases "x = PosInf")
  case True
  then show ?thesis by (simp add: normalize_def divide_loop_forever)
next
  case False
  with assms have stuck: "is_zero x \<or> float_lt x (Finite 0)" by simp
  then have "\<not> float_gt x (Finite 10)"
    by (cases x) (auto simp: float_gt_def float_lt_def is_zero_def is_nan_def float_val_def
        split: if_splits)
  then show ?thesis
    by (simp add: normalize_def divide_loop_skips multiply_loop_forever [OF stuck])
qed

lemma normalize_nan: "normalize NaN = Some (Inr (NaN, 0))"
proof -
  have "divide_loop NaN 0 = Some (Inr (NaN, 0))"
    by (subst divide_loop.simps) (simp add: float_gt_def float_lt_def is_nan_def)
  moreover have "multiply_loop NaN 0 = Some (Inr (NaN, 0))"
    by (subst multiply_loop.simps) (simp add: float_lt_def is_nan_def)
  ultimately show ?thesis by (simp add: normalize_def)
qed

subsection \<open>When the loops of DecToExp end\<close>

lemma DecToExp_step_parsed:
  assumes "\<not> reg_empty sel" and "py_float (view_substr v sel) = Inr x"
  shows "DecToExp_step h dst v sel =
     (case normalize x of
        None \<Rightarrow> None
      | Some (Inl e) \<Rightarrow> Some (Inl e)
      | Some (Inr (base, ex)) \<Rightarrow>
          Some (bindE (exp_text dst base ex) (\<lambda>out. Inr (view_replace h v sel out))))"
  using assms by (simp add: DecToExp_step_def expand_to_number_def)

lemma DecToExp_step_hangs_iff:
  assumes "\<not> reg_empty sel" and "py_float (view_substr v sel) = Inr x"
  shows "DecToExp_step h dst v sel = None \<longleftrightarrow> normalize x = None"
  using assms
  by (auto simp: DecToExp_step_parsed split: option.splits sum.splits prod.splits)

text \<open>
  C10.  The claim: the normalization loops of DecToExp end if and only if the parsed
  value is strictly positive and finite.  On the code they also end on the
  not-a-number, for which both loop conditions \<^verbatim>\<open>base > 10\<close> and \<^verbatim>\<open>base < 1\<close> are false:
  the text \<^verbatim>\<open>nan\<close> is a float for Python, and DecToExp replaces it with \<^verbatim>\<open>nane0\<close>.
\<close>

theorem C10_counterexample:
  "py_float ''nan'' = Inr NaN
   \<and> normalize NaN = Some (Inr (NaN, 0))
   \<and> shown_opt (DecToExp_run plain_host (fresh_view ''nan'' [Region 0 3]))
       = Some (Inr (''nane0'', [Region 0 5], []))"
proof -
  have parse: "py_float ''nan'' = Inr NaN" by code_simp
  have ne: "\<not> reg_empty (Region 0 3)" by (simp add: reg_empty_def)
  have sub: "view_substr (fresh_view ''nan'' [Region 0 3]) (Region 0 3) = ''nan''" by code_simp
  have step: "DecToExp_step plain_host (SString ''e'') (fresh_view ''nan'' [Region 0 3]) (Region 0 3)
      = Some (Inr (view_replace plain_host (fresh_view ''nan'' [Region 0 3]) (Region 0 3)
                     (strip_zeros NaN @ ''e'' @ py_str_int 0)))"
    using parse sub
    by (simp add: DecToExp_step_parsed [OF ne] normalize_nan exp_text_def bindE_def)
  have dst: "settings_get (fresh_view ''nan'' [Region 0 3]) ''convert_dst_exp'' CONVERT_DST_EXP_DFLT
      = SString ''e''"
    by (simp add: settings_get_def fresh_view_def CONVERT_DST_EXP_DFLT_def)
  have sels: "selection (fresh_view ''nan'' [Region 0 3]) = [Region 0 3]"
    by (simp add: fresh_view_def)
  have run: "DecToExp_run plain_host (fresh_view ''nan'' [Region 0 3])
      = Some (Inr (view_replace plain_host (fresh_view ''nan'' [Region 0 3]) (Region 0 3)
                     (strip_zeros NaN @ ''e'' @ py_str_int 0)))"
    by (simp add: DecToExp_run_def dst sels step report_none)
  have "shown (Inr (view_replace plain_host (fresh_view ''nan'' [Region 0 3]) (Region 0 3)
                     (strip_zeros NaN @ ''e'' @ py_str_int 0)))
      = Inr (''nane0'', [Region 0 5], [])"
    by code_simp
  with run have "shown_opt (DecToExp_run plain_host (fresh_view ''nan'' [Region 0 3]))
      = Some (Inr (''nane0'', [Region 0 5], []))"
    by (simp add: shown_opt_def)
  with parse normalize_nan show ?thesis by simp
qed

text \<open>
  C10 as amended: for a float \<open>x\<close>, the two normalization loops (divide by 10 while
  greater than 10, then multiply by 10 while less than 1) end if and only if \<open>x\<close> is
  strictly positive and finite or \<open>x\<close> is the not-a-number; on a zero, on a negative
  number and on an infinity they run forever, and DecToExp on a non-empty selection
  whose text parses to such a value does not return.
\<close>

theorem C10_loops_end_iff:
  assumes "is_float x"
  shows "((\<exists>r. normalize x = Some r) \<longleftrightarrow> (\<exists>q. x = Finite q \<and> 0 < q) \<or> x = NaN)
       \<and> (\<forall>h dst v sel. \<not> reg_empty sel \<and> py_float (view_substr v sel) = Inr x \<longrightarrow>
            (DecToExp_step h dst v sel = None
               \<longleftrightarrow> \<not> ((\<exists>q. x = Finite q \<and> 0 < q) \<or> x = NaN)))"
proof -
  have main: "(\<exists>r. normalize x = Some r) \<longleftrightarrow> (\<exists>q. x = Finite q \<and> 0 < q) \<or> x = NaN"
  proof (cases x)
    case (Finite q)
    show ?thesis
    proof (cases "0 < q")
      case True
      with assms Finite normalize_ends [of q] show ?thesis by auto
    next
      case False
      then have "is_zero x \<or> float_lt x (Finite 0) \<or> x = PosInf"
        using Finite by (auto simp: is_zero_def float_lt_def is_nan_def float_val_def)
      from normalize_forever [OF this] False Finite show ?thesis by simp
    qed
  next
    case NegZero
    then have "is_zero x \<or> float_lt x (Finite 0) \<or> x = PosInf" by (simp add: is_zero_def)
    from normalize_forever [OF this] NegZero show ?thesis by simp
  next
    case PosInf
    then have "is_zero x \<or> float_lt x (Finite 0) \<or> x = PosInf" by simp
    from normalize_forever [OF this] PosInf show ?thesis by simp
  next
    case NegInf
    then have "is_zero x \<or> float_lt x (Finite 0) \<or> x = PosInf"
      by (simp add: float_lt_def is_nan_def)
    from normalize_forever [OF this] NegInf show ?thesis by simp
  next
    case NaN
    with normalize_nan show ?thesis by simp
  qed
  have "normalize x = None \<longleftrightarrow> \<not> ((\<exists>q. x = Finite q \<and> 0 < q) \<or> x = NaN)"
    using main by (cases "normalize x") auto
  then show ?thesis
    using main by (simp add: DecToExp_step_hangs_iff)
qed

theorem C10_loops_end_iff_witness:
  "is_float (Finite 1420) \<and> (\<exists>r. normalize (Finite 1420) = Some r)
   \<and> is_float (Finite 0) \<and> normalize (Finite 0) = None"
proof -
  have a: "is_float (Finite 1420)" by (rule is_float_1420)
  have b: "is_float (Finite 0)" by code_simp
  have "\<exists>r. normalize (Finite 1420) = Some r"
    using C10_loops_end_iff [OF a] by simp
  moreover have "normalize (Finite 0) = None"
    using C10_loops_end_iff [OF b] by (cases "normalize (Finite 0)") auto
  ultimately show ?thesis using a b by simp
qed

subsection \<open>A selection that does not match is skipped\<close>

lemma expand_number_nonempty: "\<not> reg_empty sel \<Longrightarrow> expand_to_number h cs v sel = sel"
  by (simp add: expand_to_number_def)



lemma nomatch_steps:
  assumes "\<not> reg_empty sel" and "re_match r (view_substr v sel) = None"
  shows "BinToDec_step h r v sel = Inl AttributeError"
    and "BinToHex_step h dst r v sel = Inl AttributeError"
    and "HexToBin_step h dst r v sel = Inl AttributeError"
    and "ExpToDec_step h r v sel = Inl AttributeError"
  using assms
  by (simp_all add: BinToDec_step_def BinToHex_step_def HexToBin_step_def ExpToDec_step_def
        expand_nonempty expand_number_nonempty bindE_def match_group_def Let_def)



subsection \<open>ExpToDec\<close>

lemma compile_src_exp: "re_compile CONVERT_SRC_EXP_DFLT = Inr SRC_EXP_DFLT_pattern"
  by code_simp

lemma load_src_exp:
  "settings v ''convert_src_exp'' = None \<Longrightarrow>
   load_pattern v ''convert_src_exp'' CONVERT_SRC_EXP_DFLT = Inr SRC_EXP_DFLT_pattern"
  by (rule load_pattern_unset [OF _ compile_src_exp])






subsection \<open>The text 0\<close>

lemma zero_bin_group:
  "match_group (re_match SRC_BIN_DFLT_pattern ''0'') (Suc 0) = Inr (Some ''0'')"
  by code_simp

lemma zero_hex_group:
  "match_group (re_match SRC_HEX_DFLT_pattern ''0'') (Suc 0) = Inr (Some ''0'')"
  by code_simp

lemma zero_exp_nomatch: "re_match SRC_EXP_DFLT_pattern ''0'' = None"
  by code_simp

lemma zero_int: "py_int 2 ''0'' = Inr 0" "py_int 16 ''0'' = Inr 0" "py_int 10 (py_strip ''0'') = Inr 0"
  by code_simp+

lemma zero_texts: "py_str_int 0 = ''0''" "py_hex 0 = ''0x0''" "int_digits 2 [] 0 = ''0''"
  by code_simp+

text \<open>
  C2.  The claim: each of the eight commands, run with default settings on a single
  non-empty selection with the text \<^verbatim>\<open>0\<close>, ends and replaces the selection with the
  converted zero; DecToExp gives the mantissa 0 and the exponent 0.  On the code the
  text \<^verbatim>\<open>0\<close> does not match the default exponential pattern, which asks for digits,
  a point, digits, \<^verbatim>\<open>e\<close> and an exponent, so ExpToDec skips it; and DecToExp does not
  return: 0 is not greater than 10, and it stays less than 1 however often it is
  multiplied by 10.
\<close>

theorem C2_counterexample:
  "shown (ExpToDec_run plain_host (fresh_view ''0'' [Region 0 1]))
     = Inr (''0'', [Region 0 1], [''Skipped 1 invalid exponential value(s)!''])
   \<and> DecToExp_run plain_host (fresh_view ''0'' [Region 0 1]) = None"
proof -
  let ?v = "fresh_view ''0'' [Region 0 1]"
  have exp: "shown (ExpToDec_run plain_host ?v)
      = Inr (''0'', [Region 0 1], [''Skipped 1 invalid exponential value(s)!''])"
    by code_simp
  have ne: "\<not> reg_empty (Region 0 1)" by (simp add: reg_empty_def)
  have sub: "view_substr ?v (Region 0 1) = ''0''" by code_simp
  have parse: "py_float (view_substr ?v (Region 0 1)) = Inr (Finite 0)"
    by (simp only: sub zero_float)
  have "is_zero (Finite 0) \<or> float_lt (Finite 0) (Finite 0) \<or> Finite 0 = PosInf"
    by (simp add: is_zero_def)
  then have "normalize (Finite 0) = None" by (rule normalize_forever)
  then have step: "DecToExp_step plain_host dst ?v (Region 0 1) = None" for dst
    by (simp add: DecToExp_step_hangs_iff [OF ne parse])
  have sels: "selection ?v = [Region 0 1]" by (simp add: fresh_view_def)
  have "DecToExp_run plain_host ?v = None"
    by (simp add: DecToExp_run_def Let_def sels step)
  with exp show ?thesis by simp
qed

text \<open>
  C2 as amended: each of the six commands between the bases 2, 10 and 16, run with
  default settings on a single non-empty selection with the text \<^verbatim>\<open>0\<close>, ends and
  replaces the selection with the zero of the target base (\<^verbatim>\<open>0\<close>, or \<^verbatim>\<open>0x0\<close> for a
  hexadecimal target); zero is not taken for an empty value.  ExpToDec leaves the
  text \<^verbatim>\<open>0\<close> as it is and reports one skipped value.
\<close>

theorem C2_zero_converts:
  assumes sels: "selection v = [sel]" "\<not> reg_empty sel" "view_substr v sel = ''0''"
    and unset: "settings v ''convert_src_bin'' = None" "settings v ''convert_dst_bin'' = None"
      "settings v ''convert_src_hex'' = None" "settings v ''convert_dst_hex'' = None"
      "settings v ''convert_src_exp'' = None"
  shows "BinToDec_run h v = Inr (view_replace h v sel ''0'')
       \<and> BinToHex_run h v = Inr (view_replace h v sel ''0x0'')
       \<and> DecToBin_run h v = Inr (view_replace h v sel ''0'')
       \<and> DecToHex_run h v = Inr (view_replace h v sel ''0x0'')
       \<and> HexToBin_run h v = Inr (view_replace h v sel ''0'')
       \<and> HexToDec_run h v = Inr (view_replace h v sel ''0'')
       \<and> ExpToDec_run h v
           = Inr (status_message v ''Skipped 1 invalid exponential value(s)!'')"
proof -
  have bg: "match_group (re_match SRC_BIN_DFLT_pattern (view_substr v sel)) (Suc 0)
      = Inr (Some ''0'')"
    using sels(3) by (simp add: zero_bin_group)
  have hg: "match_group (re_match SRC_HEX_DFLT_pattern (view_substr v sel)) (Suc 0)
      = Inr (Some ''0'')"
    using sels(3) by (simp add: zero_hex_group)
  have fh: "format_setting (settings_get v ''convert_dst_hex'' CONVERT_DST_HEX_DFLT) 0
      = Inr ''0x0''"
    using format_setting_hex_unset [OF unset(4), of 0] by (simp add: zero_texts)
  have fb: "format_setting (settings_get v ''convert_dst_bin'' CONVERT_DST_BIN_DFLT) 0
      = Inr ''0''"
    using format_setting_bin_unset [OF unset(2), of 0] by (simp add: zero_texts)
  have dv: "py_int 10 (py_strip (view_substr v sel)) = Inr 0"
    using sels(3) by (simp add: zero_int)
  have s1: "BinToDec_step h SRC_BIN_DFLT_pattern v sel = Inr (view_replace h v sel ''0'')"
    using BinToDec_step_match [OF sels(2) bg zero_int(1), of h] by (simp add: zero_texts)
  have s2: "BinToHex_step h (settings_get v ''convert_dst_hex'' CONVERT_DST_HEX_DFLT)
              SRC_BIN_DFLT_pattern v sel = Inr (view_replace h v sel ''0x0'')"
    by (rule BinToHex_step_match [OF sels(2) bg zero_int(1) fh])
  have s3: "DecTo_step h (settings_get v ''convert_dst_bin'' CONVERT_DST_BIN_DFLT) v sel
      = Inr (view_replace h v sel ''0'')"
    by (rule DecTo_step_value [OF sels(2) dv fb])
  have s4: "DecTo_step h (settings_get v ''convert_dst_hex'' CONVERT_DST_HEX_DFLT) v sel
      = Inr (view_replace h v sel ''0x0'')"
    by (rule DecTo_step_value [OF sels(2) dv fh])
  have s5: "HexToBin_step h (settings_get v ''convert_dst_bin'' CONVERT_DST_BIN_DFLT)
              SRC_HEX_DFLT_pattern v sel = Inr (view_replace h v sel ''0'')"
    by (rule HexToBin_step_match [OF sels(2) hg zero_int(2) fb])
  have s6: "HexToDec_step h SRC_HEX_DFLT_pattern v sel = Inr (view_replace h v sel ''0'')"
    using HexToDec_step_match [OF sels(2) hg zero_int(2), of h] by (simp add: zero_texts)
  have nm: "re_match SRC_EXP_DFLT_pattern (view_substr v sel) = None"
    using sels(3) by (simp add: zero_exp_nomatch)
  have s7: "ExpToDec_step h SRC_EXP_DFLT_pattern v sel = Inl AttributeError"
    by (rule nomatch_steps(4) [OF sels(2) nm])
  have r1: "BinToDec_run h v = Inr (view_replace h v sel ''0'')"
    using sels(1) unset(1)
    by (simp add: BinToDec_run_def load_src_bin bindE_def for_each_sel_single s1 report_none)
  have r2: "BinToHex_run h v = Inr (view_replace h v sel ''0x0'')"
    using sels(1) unset(1)
    by (simp add: BinToHex_run_def load_src_bin bindE_def for_each_sel_single s2 report_none)
  have r3: "DecToBin_run h v = Inr (view_replace h v sel ''0'')"
    using sels(1) by (simp add: DecToBin_run_def for_each_sel_single s3 report_none)
  have r4: "DecToHex_run h v = Inr (view_replace h v sel ''0x0'')"
    using sels(1) by (simp add: DecToHex_run_def for_each_sel_single s4 report_none)
  have r5: "HexToBin_run h v = Inr (view_replace h v sel ''0'')"
    using sels(1) unset(3)
    by (simp add: HexToBin_run_def load_src_hex bindE_def for_each_sel_single s5 report_none)
  have r6: "HexToDec_run h v = Inr (view_replace h v sel ''0'')"
    using sels(1) unset(3)
    by (simp add: HexToDec_run_def load_src_hex bindE_def for_each_sel_single s6 report_none)
  have r7: "ExpToDec_run h v
      = Inr (status_message v ''Skipped 1 invalid exponential value(s)!'')"
    using sels(1) unset(5)
    by (simp add: ExpToDec_run_def load_src_exp bindE_def for_each_sel_single s7 report_one)
  from r1 r2 r3 r4 r5 r6 r7 show ?thesis by simp
qed

theorem C2_zero_converts_witness:
  "shown (BinToHex_run plain_host (fresh_view ''0'' [Region 0 1])) = Inr (''0x0'', [Region 0 3], [])
   \<and> shown (HexToDec_run plain_host (fresh_view ''0'' [Region 0 1])) = Inr (''0'', [Region 0 1], [])"
proof -
  let ?v = "fresh_view ''0'' [Region 0 1]"
  have all: "BinToHex_run plain_host ?v = Inr (view_replace plain_host ?v (Region 0 1) ''0x0'')
      \<and> HexToDec_run plain_host ?v = Inr (view_replace plain_host ?v (Region 0 1) ''0'')"
    using C2_zero_converts [of ?v "Region 0 1" plain_host]
    by (simp add: fresh_view_def view_substr_def reg_empty_def reg_begin_def reg_end_def)
  have "shown (Inr (view_replace plain_host ?v (Region 0 1) ''0x0''))
      = Inr (''0x0'', [Region 0 3], [])" by code_simp
  moreover have "shown (Inr (view_replace plain_host ?v (Region 0 1) ''0''))
      = Inr (''0'', [Region 0 1], [])" by code_simp
  ultimately show ?thesis using all by simp
qed

end
